theory Spec2Isabelle
  imports Complex_Main "HOL-Library.Sublist"
begin

section \<open>Data model\<close>

text \<open>
  A JavaScript \<open>Date\<close> is its time value: the number of milliseconds since the epoch
  (\<open>getTime()\<close>), an unbounded integer here. Identifiers, titles and categories are
  strings, as in \<open>src/src/App.jsx\<close>. Numbers are integers without bound: the rounding of
  JavaScript numbers past \<open>2^53\<close> and the range limit of \<open>Date\<close> are outside the model.
\<close>

type_synonym date = int

record task =
  task_id :: string
  title :: string
  description :: string
  startTime :: date
  endTime :: date
  completed :: bool
  category :: string
  priority :: string
  color :: string
  reminder :: bool
  reminderSent :: bool

text \<open>A free slot \<open>{ start, end }\<close>, in minutes since midnight.\<close>

record slot =
  slot_start :: int
  slot_end :: int

section \<open>Interval conflict detector\<close>

text \<open>
  \<^verbatim>\<open>
  function checkConflict(tasks, newStart, newEnd, excludeId = null) {
    return tasks
      .filter((t) => t.id !== excludeId)
      .some((t) => { ... return nStart < tEnd && nEnd > tStart; });
  }
  \<close>
  The optional \<open>excludeId\<close> is \<open>None\<close> for \<open>null\<close>; a task's id is a string, so it
  is never strictly equal to \<open>null\<close>.
\<close>

definition checkConflict :: "task list \<Rightarrow> date \<Rightarrow> date \<Rightarrow> string option \<Rightarrow> bool" where
  "checkConflict tasks newStart newEnd excludeId =
     list_ex
       (\<lambda>t. let tStart = startTime t; tEnd = endTime t; nStart = newStart; nEnd = newEnd
            in nStart < tEnd \<and> nEnd > tStart)
       (filter (\<lambda>t. Some (task_id t) \<noteq> excludeId) tasks)"

section \<open>Strings\<close>

text \<open>
  A \<open>char\<close> stands for one code unit below 256 (ASCII and Latin-1), which is enough
  for every pattern of the parser: they are made of ASCII letters, digits, the colon
  and the classes \<open>\d\<close> and \<open>\s\<close>. The only operation whose JavaScript result can leave
  this range is \<open>toUpperCase\<close> on one of the three code units 181, 223 and 255; they are
  left unchanged here, and they are neither digits, nor white space, nor ASCII letters.
\<close>

definition code :: "char \<Rightarrow> nat" where
  "code c = of_char c"

text \<open>The class \<open>\d\<close>.\<close>

definition is_digit :: "char \<Rightarrow> bool" where
  "is_digit c = (48 \<le> code c \<and> code c \<le> 57)"

text \<open>The class \<open>\s\<close>, which is also what \<open>trim()\<close> strips: tab, line feed, vertical tab,
  form feed, carriage return, space and no-break space.\<close>

definition is_space :: "char \<Rightarrow> bool" where
  "is_space c = ((9 \<le> code c \<and> code c \<le> 13) \<or> code c = 32 \<or> code c = 160)"

definition toLowerChar :: "char \<Rightarrow> char" where
  "toLowerChar c =
     (if (65 \<le> code c \<and> code c \<le> 90) \<or> (192 \<le> code c \<and> code c \<le> 222 \<and> code c \<noteq> 215)
      then char_of (code c + 32) else c)"

definition toUpperChar :: "char \<Rightarrow> char" where
  "toUpperChar c =
     (if (97 \<le> code c \<and> code c \<le> 122) \<or> (224 \<le> code c \<and> code c \<le> 254 \<and> code c \<noteq> 247)
      then char_of (code c - 32) else c)"

definition toLowerCase :: "string \<Rightarrow> string" where
  "toLowerCase s = map toLowerChar s"

text \<open>\<open>parseInt\<close> on a run of decimal digits.\<close>

definition parseInt :: "string \<Rightarrow> int" where
  "parseInt ds = foldl (\<lambda>a c. 10 * a + int (code c - 48)) 0 ds"

text \<open>\<open>s.startsWith(p)\<close>, and the same test under the regular-expression flag \<open>i\<close> for a
  pattern \<open>p\<close> written in lower case.\<close>

fun startsWith :: "string \<Rightarrow> string \<Rightarrow> bool" where
  "startsWith s [] = True"
| "startsWith [] (p # ps) = False"
| "startsWith (c # s) (p # ps) = (c = p \<and> startsWith s ps)"

fun startsWith_ci :: "string \<Rightarrow> string \<Rightarrow> bool" where
  "startsWith_ci s [] = True"
| "startsWith_ci [] (p # ps) = False"
| "startsWith_ci (c # s) (p # ps) = (toLowerChar c = p \<and> startsWith_ci s ps)"

text \<open>\<open>s.includes(p)\<close>.\<close>

fun includes_str :: "string \<Rightarrow> string \<Rightarrow> bool" where
  "includes_str [] p = (p = [])"
| "includes_str (c # s) p = (startsWith (c # s) p \<or> includes_str s p)"

text \<open>\<open>s.trim()\<close>.\<close>

definition trim :: "string \<Rightarrow> string" where
  "trim s = rev (dropWhile is_space (rev (dropWhile is_space s)))"

text \<open>
  An alternation of literals \<open>p1|p2|...\<close> tried at the beginning of \<open>s\<close>: the alternatives
  are tried from left to right and the first one that matches is taken. The result is the
  length of the match. \<open>match_alt\<close> compares exactly, \<open>match_alt_ci\<close> under the flag \<open>i\<close>.
\<close>

fun match_alt :: "string list \<Rightarrow> string \<Rightarrow> nat option" where
  "match_alt [] s = None"
| "match_alt (p # ps) s = (if startsWith s p then Some (length p) else match_alt ps s)"

fun match_alt_ci :: "string list \<Rightarrow> string \<Rightarrow> nat option" where
  "match_alt_ci [] s = None"
| "match_alt_ci (p # ps) s = (if startsWith_ci s p then Some (length p) else match_alt_ci ps s)"

text \<open>\<open>/p1|p2|.../i.test(s)\<close>: some position of \<open>s\<close> starts a match.\<close>

fun test_ci :: "string list \<Rightarrow> string \<Rightarrow> bool" where
  "test_ci ps [] = (match_alt_ci ps [] \<noteq> None)"
| "test_ci ps (c # s) = (match_alt_ci ps (c # s) \<noteq> None \<or> test_ci ps s)"

text \<open>
  \<open>s.replace(/re/g, "")\<close> for a matcher \<open>m\<close> that gives the length of the match of \<open>re\<close>
  at the beginning of its argument: the scan goes from left to right, a match is removed
  and the scan resumes behind it; where nothing matches, and where the match is empty,
  the character is kept.
\<close>

function replace_all :: "(string \<Rightarrow> nat option) \<Rightarrow> string \<Rightarrow> string" where
  "replace_all m [] = []"
| "replace_all m (c # s) =
     (case m (c # s) of
        None \<Rightarrow> c # replace_all m s
      | Some n \<Rightarrow> if n = 0 then c # replace_all m s else replace_all m (drop n (c # s)))"
  by pat_completeness auto
termination
  by (relation "measure (\<lambda>(m, s). length s)") auto

text \<open>\<open>n.toString()\<close> for an integer and \<open>s.padStart(2, "0")\<close>.\<close>

function toString_nat :: "nat \<Rightarrow> string" where
  "toString_nat n =
     (if n < 10 then [char_of (48 + n)] else toString_nat (n div 10) @ [char_of (48 + n mod 10)])"
  by pat_completeness auto
termination
  by (relation "measure (\<lambda>n. n)") auto

definition toString :: "int \<Rightarrow> string" where
  "toString i = (if i < 0 then CHR ''-'' # toString_nat (nat (- i)) else toString_nat (nat i))"

definition padStart2 :: "string \<Rightarrow> string" where
  "padStart2 s = replicate (2 - length s) (CHR ''0'') @ s"

text \<open>The remainder operator \<open>%\<close> of JavaScript on integers: the sign is the dividend's.\<close>

definition js_rem :: "int \<Rightarrow> int \<Rightarrow> int" where
  "js_rem a b = sgn a * (\<bar>a\<bar> mod \<bar>b\<bar>)"

text \<open>
  \<^verbatim>\<open>
  function minutesToTime(minutes) {
    const h = Math.floor(minutes / 60).toString().padStart(2, "0");
    const m = (minutes % 60).toString().padStart(2, "0");
    return `${h}:${m}`;
  }
  \<close>
\<close>

definition minutesToTime :: "int \<Rightarrow> string" where
  "minutesToTime minutes =
     (let h = padStart2 (toString (minutes div 60));
          m = padStart2 (toString (js_rem minutes 60))
      in h @ '':'' @ m)"

section \<open>Dates\<close>

text \<open>
  The host's time zone is a parameter \<open>tz\<close>: the number of minutes local time is ahead of
  UTC, taken as constant (no daylight-saving change), so that the local clock reads
  \<open>d + tz * 60000\<close> at the instant \<open>d\<close>.
\<close>

definition localTime :: "int \<Rightarrow> date \<Rightarrow> int" where
  "localTime tz d = d + tz * 60000"

definition getHours :: "int \<Rightarrow> date \<Rightarrow> int" where
  "getHours tz d = (localTime tz d div 3600000) mod 24"

definition getMinutes :: "int \<Rightarrow> date \<Rightarrow> int" where
  "getMinutes tz d = (localTime tz d div 60000) mod 60"

text \<open>
  \<open>d.toISOString().split("T")[0]\<close> is the calendar date of \<open>d\<close> in UTC. Two such strings
  are equal exactly when the instants fall on the same UTC day, so the string is modelled
  by the number of that day.
\<close>

definition isoDate :: "date \<Rightarrow> int" where
  "isoDate d = d div 86400000"

text \<open>\<open>d.setDate(d.getDate() + n)\<close>: the local calendar day moves by \<open>n\<close>, the local time of
  day stays.\<close>

definition addDays :: "date \<Rightarrow> int \<Rightarrow> date" where
  "addDays d n = d + n * 86400000"

text \<open>\<open>d.setHours(hour, min, 0, 0)\<close>: the local day of \<open>d\<close> at \<open>hour:min\<close>; hours of 24 and more
  run into the following days.\<close>

definition setHours :: "int \<Rightarrow> date \<Rightarrow> int \<Rightarrow> int \<Rightarrow> date" where
  "setHours tz d hour mn =
     (localTime tz d div 86400000) * 86400000 + hour * 3600000 + mn * 60000 - tz * 60000"

text \<open>
  \<^verbatim>\<open>
  function minutesSinceMidnight(date) {
    return date.getHours() * 60 + date.getMinutes();
  }
  \<close>
\<close>

definition minutesSinceMidnight :: "int \<Rightarrow> date \<Rightarrow> int" where
  "minutesSinceMidnight tz d = getHours tz d * 60 + getMinutes tz d"

section \<open>Free-slot calculator\<close>

text \<open>
  \<^verbatim>\<open>
  function getFreeSlots(tasks, dateStr, dayStart = 8, dayEnd = 22) {
    const dayTasks = tasks
      .filter((t) => t.startTime.toISOString().split("T")[0] === dateStr)
      .sort((a, b) => a.startTime - b.startTime);
    const free = [];
    let cursor = dayStart * 60;
    for (const t of dayTasks) {
      const tStart = minutesSinceMidnight(t.startTime);
      const tEnd = minutesSinceMidnight(t.endTime);
      if (tStart > cursor) { free.push({ start: cursor, end: tStart }); }
      cursor = Math.max(cursor, tEnd);
    }
    if (cursor < dayEnd * 60) { free.push({ start: cursor, end: dayEnd * 60 }); }
    return free;
  }
  \<close>
  \<open>sweep\<close> is the \<open>for\<close> loop, on the state \<open>(cursor, free)\<close>. The sort is stable, as
  \<open>sort_key\<close> is.
\<close>

fun sweep :: "int \<Rightarrow> task list \<Rightarrow> int \<Rightarrow> slot list \<Rightarrow> int \<times> slot list" where
  "sweep tz [] cursor free = (cursor, free)"
| "sweep tz (t # ts) cursor free =
     (let tStart = minutesSinceMidnight tz (startTime t);
          tEnd = minutesSinceMidnight tz (endTime t);
          free' = (if tStart > cursor then free @ [\<lparr>slot_start = cursor, slot_end = tStart\<rparr>]
                   else free)
      in sweep tz ts (max cursor tEnd) free')"

definition getFreeSlots :: "int \<Rightarrow> task list \<Rightarrow> int \<Rightarrow> int \<Rightarrow> int \<Rightarrow> slot list" where
  "getFreeSlots tz tasks dateStr dayStart dayEnd =
     (let dayTasks = sort_key startTime (filter (\<lambda>t. isoDate (startTime t) = dateStr) tasks);
          (cursor, free) = sweep tz dayTasks (dayStart * 60) []
      in if cursor < dayEnd * 60 then free @ [\<lparr>slot_start = cursor, slot_end = dayEnd * 60\<rparr>]
         else free)"

section \<open>Intent resolver\<close>

subsection \<open>The patterns\<close>

text \<open>
  \<open>\d{1,2}(?::(\d{2}))?\s*(am|pm)?\<close> at the beginning of \<open>s\<close>. Behind the first digit every
  part is optional and greedy, so the match is the longest one: up to two digits, a colon
  with two digits if they are there, all the white space, and \<open>am\<close> or \<open>pm\<close> if it
  follows. The result is the text of the three groups and the length of the match.
\<close>

definition match_clock :: "string \<Rightarrow> ((string \<times> string option \<times> string option) \<times> nat) option" where
  "match_clock s =
     (let d = takeWhile is_digit (take 2 s) in
      if d = [] then None
      else
        let r1 = drop (length d) s;
            mm = (case r1 of
                    c # a # b # _ \<Rightarrow>
                      if c = CHR '':'' \<and> is_digit a \<and> is_digit b then Some [a, b] else None
                  | _ \<Rightarrow> None);
            r2 = (case mm of None \<Rightarrow> r1 | Some _ \<Rightarrow> drop 3 r1);
            ws = takeWhile is_space r2;
            r3 = drop (length ws) r2;
            ap = (if startsWith_ci r3 ''am'' \<or> startsWith_ci r3 ''pm'' then Some (take 2 r3)
                  else None);
            n = length d + (case mm of None \<Rightarrow> 0 | Some _ \<Rightarrow> 3) + length ws
                + (case ap of None \<Rightarrow> 0 | Some _ \<Rightarrow> 2)
        in Some ((d, mm, ap), n))"

text \<open>
  The body of the scanning loop:
  \<^verbatim>\<open>
    let hour = parseInt(m[1]);
    const min = parseInt(m[2] || "0");
    const ampm = m[3];
    if (ampm === "pm" && hour !== 12) hour += 12;
    if (ampm === "am" && hour === 12) hour = 0;
    times.push({ hour, min });
  \<close>
\<close>

definition time_of :: "string \<times> string option \<times> string option \<Rightarrow> int \<times> int" where
  "time_of g =
     (case g of (m1, m2, ampm) \<Rightarrow>
        let hour = parseInt m1;
            mn = parseInt (case m2 of None \<Rightarrow> ''0'' | Some x \<Rightarrow> x);
            hour = (if ampm = Some ''pm'' \<and> hour \<noteq> 12 then hour + 12 else hour);
            hour = (if ampm = Some ''am'' \<and> hour = 12 then 0 else hour)
        in (hour, mn))"

text \<open>
  \<^verbatim>\<open>
  const timeRegex = /(\d{1,2})(?::(\d{2}))?\s*(am|pm)?/gi;
  const times = [];
  let m;
  while ((m = timeRegex.exec(lower)) !== null) { ... }
  \<close>
  Each \<open>exec\<close> looks for the next match from where the last one ended.
\<close>

function scan_times :: "string \<Rightarrow> (int \<times> int) list" where
  "scan_times [] = []"
| "scan_times (c # s) =
     (case match_clock (c # s) of
        None \<Rightarrow> scan_times s
      | Some (g, n) \<Rightarrow> time_of g # scan_times (drop n (c # s)))"
  by pat_completeness auto
termination
  by (relation "measure length") (auto simp: match_clock_def Let_def split: if_splits)

text \<open>
  \<open>lower.match(/(\d+)\s*(hour|hr|minute|min)/)\<close>: the first position where the pattern
  matches; the result is the text of the two groups. At a given position the digits and
  the white space are taken greedily, and giving some back cannot help, since a unit starts
  with neither a digit nor white space.
\<close>

definition match_dur :: "string \<Rightarrow> (string \<times> string) option" where
  "match_dur s =
     (let d = takeWhile is_digit s in
      if d = [] then None
      else
        let r = dropWhile is_space (drop (length d) s) in
        case match_alt [''hour'', ''hr'', ''minute'', ''min''] r of
          None \<Rightarrow> None
        | Some n \<Rightarrow> Some (d, take n r))"

fun search_dur :: "string \<Rightarrow> (string \<times> string) option" where
  "search_dur [] = None"
| "search_dur (c # s) =
     (case match_dur (c # s) of Some g \<Rightarrow> Some g | None \<Rightarrow> search_dur s)"

text \<open>\<open>/at \d{1,2}(?::\d{2})?\s*(?:am|pm)?/gi\<close> at the beginning of \<open>s\<close>.\<close>

definition match_at_time :: "string \<Rightarrow> nat option" where
  "match_at_time s =
     (if startsWith_ci s ''at '' then
        (case match_clock (drop 3 s) of None \<Rightarrow> None | Some (g, n) \<Rightarrow> Some (3 + n))
      else None)"

text \<open>\<open>/for \d+ (?:hour|hr|minute|min)s?/gi\<close> at the beginning of \<open>s\<close>: the digits are
  followed by exactly one space.\<close>

definition match_for_dur :: "string \<Rightarrow> nat option" where
  "match_for_dur s =
     (if startsWith_ci s ''for '' then
        (let r0 = drop 4 s; d = takeWhile is_digit r0 in
         if d = [] then None
         else
           (case drop (length d) r0 of
              [] \<Rightarrow> None
            | c # r1 \<Rightarrow>
                if c \<noteq> CHR '' '' then None
                else
                  (case match_alt_ci [''hour'', ''hr'', ''minute'', ''min''] r1 of
                     None \<Rightarrow> None
                   | Some u \<Rightarrow>
                       Some (4 + length d + 1 + u
                             + (if startsWith_ci (drop u r1) ''s'' then 1 else 0)))))
      else None)"

subsection \<open>The steps of the resolver\<close>

text \<open>
  \<^verbatim>\<open>
  let targetDate = new Date(selectedDate);
  if (lower.includes("tomorrow")) { ... targetDate.setDate(targetDate.getDate() + 1); }
  else if (lower.includes("next week")) { ... targetDate.setDate(targetDate.getDate() + 7); }
  \<close>
\<close>

definition resolve_date :: "string \<Rightarrow> date \<Rightarrow> date" where
  "resolve_date lower selectedDate =
     (if includes_str lower ''tomorrow'' then addDays selectedDate 1
      else if includes_str lower ''next week'' then addDays selectedDate 7
      else selectedDate)"

text \<open>
  \<^verbatim>\<open>
  const durMatch = lower.match(/(\d+)\s*(hour|hr|minute|min)/);
  const durationMins = durMatch
    ? durMatch[2].startsWith("h") ? parseInt(durMatch[1]) * 60 : parseInt(durMatch[1])
    : 60;
  \<close>
\<close>

definition resolve_duration :: "string \<Rightarrow> int" where
  "resolve_duration lower =
     (case search_dur lower of
        Some (m1, m2) \<Rightarrow> if startsWith m2 ''h'' then parseInt m1 * 60 else parseInt m1
      | None \<Rightarrow> 60)"

text \<open>
  \<^verbatim>\<open>
  let title = message
    .replace(/schedule|add|create|set up|book|remind me to/gi, "")
    .replace(/tomorrow|today|next week/gi, "")
    .replace(/at \d{1,2}(?::\d{2})?\s*(?:am|pm)?/gi, "")
    .replace(/for \d+ (?:hour|hr|minute|min)s?/gi, "")
    .trim();
  if (!title) title = "New Task";
  title = title.charAt(0).toUpperCase() + title.slice(1);
  \<close>
\<close>

definition resolve_title :: "string \<Rightarrow> string" where
  "resolve_title msg =
     (let title =
            trim
              (replace_all match_for_dur
                 (replace_all match_at_time
                    (replace_all (match_alt_ci [''tomorrow'', ''today'', ''next week''])
                       (replace_all
                          (match_alt_ci
                             [''schedule'', ''add'', ''create'', ''set up'', ''book'',
                              ''remind me to''])
                          msg))));
          title = (if title = [] then ''New Task'' else title)
      in case title of [] \<Rightarrow> [] | c # rest \<Rightarrow> toUpperChar c # rest)"

text \<open>
  \<^verbatim>\<open>
  let category = "general";
  if (/meeting|call|standup|sync|review|client/i.test(title)) category = "work";
  if (/gym|exercise|workout|run|yoga|health|doctor/i.test(title)) category = "health";
  if (/lunch|dinner|breakfast|coffee|birthday|party/i.test(title)) category = "personal";
  \<close>
  Three statements in a row, each assigning over the one before.
\<close>

definition work_words :: "string list" where
  "work_words = [''meeting'', ''call'', ''standup'', ''sync'', ''review'', ''client'']"

definition health_words :: "string list" where
  "health_words = [''gym'', ''exercise'', ''workout'', ''run'', ''yoga'', ''health'', ''doctor'']"

definition personal_words :: "string list" where
  "personal_words = [''lunch'', ''dinner'', ''breakfast'', ''coffee'', ''birthday'', ''party'']"

definition infer_category :: "string \<Rightarrow> string" where
  "infer_category ttl =
     (let category = ''general'';
          category = (if test_ci work_words ttl then ''work'' else category);
          category = (if test_ci health_words ttl then ''health'' else category);
          category = (if test_ci personal_words ttl then ''personal'' else category)
      in category)"

text \<open>\<open>const colors = { work: "#4A90D9", health: "#5BB97B", personal: "#7C5CBF", general: "#94A3B8" }\<close>\<close>

definition colors :: "string \<rightharpoonup> string" where
  "colors =
     [''work'' \<mapsto> ''#4A90D9'', ''health'' \<mapsto> ''#5BB97B'', ''personal'' \<mapsto> ''#7C5CBF'',
      ''general'' \<mapsto> ''#94A3B8'']"

subsection \<open>The result\<close>

text \<open>
  The three messages are template strings around the values kept here:
  \<^item> \<open>NoTimeMessage\<close>: "I couldn't detect a time. Try: 'Schedule a meeting tomorrow at 3 PM'";
  \<^item> \<open>ConflictMessage suggestions\<close>: "That time slot is already taken! Available slots: "
    followed by the suggestions joined with commas, a suggestion \<open>(a, b)\<close> being printed
    as the time range from \<open>a\<close> to \<open>b\<close>;
  \<^item> \<open>AddedMessage title targetDate startTime endTime\<close>: "Added "title" on (date) from
    (start) to (end)".
  A field the returned object does not have is \<open>None\<close>.
\<close>

datatype nl_message =
    NoTimeMessage
  | ConflictMessage "(string \<times> string) list"
  | AddedMessage string date date date

record nl_result =
  success :: bool
  conflict :: "bool option"
  newTask :: "task option"
  message :: nl_message

text \<open>
  The alternatives offered on a conflict:
  \<^verbatim>\<open>
  const suggestions = freeSlots
    .filter((s) => s.end - s.start >= durationMins)
    .slice(0, 3)
    .map((s) => `${minutesToTime(s.start)} - ${minutesToTime(Math.min(s.end, s.start + durationMins))}`);
  \<close>
  \<open>offered\<close> is the list before the last step.
\<close>

definition offered :: "slot list \<Rightarrow> int \<Rightarrow> slot list" where
  "offered freeSlots durationMins =
     take 3 (filter (\<lambda>s. slot_end s - slot_start s \<ge> durationMins) freeSlots)"

definition suggest :: "slot list \<Rightarrow> int \<Rightarrow> (string \<times> string) list" where
  "suggest freeSlots durationMins =
     map (\<lambda>s. (minutesToTime (slot_start s),
                minutesToTime (min (slot_end s) (slot_start s + durationMins))))
       (offered freeSlots durationMins)"

text \<open>
  \<open>parseTaskFromNL(message, tasks, selectedDate)\<close>. The identifier that \<open>generateId()\<close>
  draws at random is the parameter \<open>newId\<close>.
\<close>

definition parseTaskFromNL :: "int \<Rightarrow> string \<Rightarrow> string \<Rightarrow> task list \<Rightarrow> date \<Rightarrow> nl_result" where
  "parseTaskFromNL tz newId msg tasks selectedDate =
     (let lower = toLowerCase msg;
          times = scan_times lower;
          targetDate = resolve_date lower selectedDate;
          durationMins = resolve_duration lower;
          title = resolve_title msg;
          category = infer_category title
      in case times of
           [] \<Rightarrow> \<lparr>success = False, conflict = None, newTask = None, message = NoTimeMessage\<rparr>
         | (hour, mn) # _ \<Rightarrow>
             let startTime = setHours tz targetDate hour mn;
                 endTime = startTime + durationMins * 60000;
                 dateStr = isoDate targetDate;
                 hasConflict = checkConflict tasks startTime endTime None;
                 freeSlots = getFreeSlots tz tasks dateStr 8 22
             in if hasConflict then
                  \<lparr>success = False, conflict = Some True, newTask = None,
                   message = ConflictMessage (suggest freeSlots durationMins)\<rparr>
                else
                  \<lparr>success = True, conflict = None,
                   newTask = Some
                     \<lparr>task_id = newId, title = title, description = ''Added via AI assistant'',
                      startTime = startTime, endTime = endTime, completed = False,
                      category = category, priority = ''medium'',
                      color = (case colors category of Some c \<Rightarrow> c | None \<Rightarrow> []),
                      reminder = True, reminderSent = False\<rparr>,
                   message = AddedMessage title targetDate startTime endTime\<rparr>)"

section \<open>Reminder scheduler\<close>

text \<open>
  \<^verbatim>\<open>
  function checkReminders(tasks, setTasks) {
    const now = new Date();
    const updated = tasks.map((task) => {
      if (task.completed || task.reminderSent || !task.reminder) return task;
      const msUntil = task.startTime.getTime() - now.getTime();
      const minsUntil = msUntil / 60000;
      if (minsUntil > 0 && minsUntil <= 15) {
        sendNotification(task);
        return { ...task, reminderSent: true };
      }
      return task;
    });
    setTasks(updated);
  }
  \<close>
  The clock is the parameter \<open>now\<close>. \<open>remind\<close> is the function mapped over the tasks: it
  gives the calls of \<open>sendNotification\<close> it makes, as the list of their arguments, and the
  task it returns. \<open>checkReminders\<close> gives all the calls in order and the collection handed
  to \<open>setTasks\<close>. \<open>sendNotification\<close> shows a browser notification when the page has the
  permission to; the model records the call. The quotient \<open>msUntil / 60000\<close> is a real
  number, which the two comparisons cannot tell from the floating-point quotient.
\<close>

definition remind :: "date \<Rightarrow> task \<Rightarrow> task list \<times> task" where
  "remind now t =
     (if completed t \<or> reminderSent t \<or> \<not> reminder t then ([], t)
      else
        let msUntil = startTime t - now;
            minsUntil = real_of_int msUntil / 60000
        in if minsUntil > 0 \<and> minsUntil \<le> 15 then ([t], t\<lparr>reminderSent := True\<rparr>)
           else ([], t))"

definition checkReminders :: "date \<Rightarrow> task list \<Rightarrow> task list \<times> task list" where
  "checkReminders now tasks =
     (let results = map (remind now) tasks
      in (concat (map fst results), map snd results))"

text \<open>Polls in a row, at the instants \<open>nows\<close>: each one works on the collection the one
  before handed to \<open>setTasks\<close>. The result is the calls of each poll and the last collection.\<close>

fun polls :: "date list \<Rightarrow> task list \<Rightarrow> task list list \<times> task list" where
  "polls [] tasks = ([], tasks)"
| "polls (now # nows) tasks =
     (let (sent, updated) = checkReminders now tasks;
          (rest, final) = polls nows updated
      in (sent # rest, final))"

section \<open>Reference notions\<close>

text \<open>
  The reminder window in the words of the specification: the task has its reminder on, is
  not completed, has not been notified, and starts in more than 0 and at most 15 minutes.
\<close>

definition spec_reminder_due :: "date \<Rightarrow> task \<Rightarrow> bool" where
  "spec_reminder_due now t =
     (reminder t = True \<and> completed t = False \<and> reminderSent t = False
      \<and> 0 < real_of_int (startTime t - now) / 60000
      \<and> real_of_int (startTime t - now) / 60000 \<le> 15)"

text \<open>A task as the task form saves it, used in the examples below.\<close>

definition plain_task :: "string \<Rightarrow> date \<Rightarrow> date \<Rightarrow> task" where
  "plain_task i s e =
     \<lparr>task_id = i, title = ''Task'', description = [], startTime = s, endTime = e,
      completed = False, category = ''work'', priority = ''medium'', color = ''#4A90D9'',
      reminder = True, reminderSent = False\<rparr>"

text \<open>
  The minutes a slot and a task stand for, and the invariant of the sweep of
  \<open>getFreeSlots\<close>: \<open>B\<close> is the set of minutes of the tasks already swept, \<open>ts\<close> the tasks
  still to come, \<open>ws\<close> and \<open>we\<close> the bounds of the window in minutes.
\<close>

definition slot_set :: "slot \<Rightarrow> int set" where
  "slot_set s = {slot_start s ..< slot_end s}"

definition start_minute :: "int \<Rightarrow> task \<Rightarrow> int" where
  "start_minute tz t = minutesSinceMidnight tz (startTime t)"

definition end_minute :: "int \<Rightarrow> task \<Rightarrow> int" where
  "end_minute tz t = minutesSinceMidnight tz (endTime t)"

definition busy :: "int \<Rightarrow> task list \<Rightarrow> int set" where
  "busy tz ts = (\<Union>t \<in> set ts. {start_minute tz t ..< end_minute tz t})"

definition sweep_inv :: "int \<Rightarrow> int \<Rightarrow> int \<Rightarrow> int set \<Rightarrow> task list \<Rightarrow> int \<Rightarrow> slot list \<Rightarrow> bool" where
  "sweep_inv tz ws we B ts cursor free \<longleftrightarrow>
     ws \<le> cursor
     \<and> (\<forall>s \<in> set free. ws \<le> slot_start s \<and> slot_start s < slot_end s
            \<and> slot_end s \<le> cursor \<and> slot_end s \<le> we)
     \<and> sorted_wrt (\<lambda>a b. slot_end a \<le> slot_start b) free
     \<and> (\<forall>x. ws \<le> x \<longrightarrow> x < cursor \<longrightarrow>
            x \<in> B \<or> (\<exists>s \<in> set free. slot_start s \<le> x \<and> x < slot_end s))
     \<and> (\<forall>x \<in> B. x < cursor)
     \<and> (\<forall>s \<in> set free. \<forall>x \<in> B. x < slot_start s \<or> slot_end s \<le> x)
     \<and> (\<forall>s \<in> set free. \<forall>t \<in> set ts. slot_end s \<le> start_minute tz t)"

section \<open>The conflict detector\<close>

lemma checkConflict_iff:
  "checkConflict tasks ns ne ex \<longleftrightarrow>
     (\<exists>t \<in> set tasks. Some (task_id t) \<noteq> ex \<and> ns < endTime t \<and> ne > startTime t)"
  by (auto simp: checkConflict_def list_ex_iff)

text \<open>
  C3. The detector answers true exactly when some task whose id is not the excluded one
  has \<open>candidateStart < taskEnd\<close> and \<open>candidateEnd > taskStart\<close>. Hence a candidate that
  only touches each task at an endpoint conflicts with none.
\<close>

theorem checkConflict_overlap_rule:
  "(checkConflict tasks candidateStart candidateEnd excludeId \<longleftrightarrow>
      (\<exists>t \<in> set tasks. Some (task_id t) \<noteq> excludeId
          \<and> candidateStart < endTime t \<and> candidateEnd > startTime t))
   \<and> ((\<forall>t \<in> set tasks. candidateEnd = startTime t \<or> candidateStart = endTime t)
        \<longrightarrow> \<not> checkConflict tasks candidateStart candidateEnd excludeId)"
  unfolding checkConflict_iff by auto

theorem checkConflict_overlap_rule_witness:
  "checkConflict [plain_task ''a'' 100 200, plain_task ''b'' 300 400] 150 250 None
   \<and> \<not> checkConflict [plain_task ''a'' 100 200, plain_task ''b'' 300 400] 150 250 (Some ''a'')
   \<and> \<not> checkConflict [plain_task ''a'' 100 200, plain_task ''b'' 300 400] 200 300 None"
  using checkConflict_overlap_rule
          [of "[plain_task ''a'' 100 200, plain_task ''b'' 300 400]" 150 250 None]
        checkConflict_overlap_rule
          [of "[plain_task ''a'' 100 200, plain_task ''b'' 300 400]" 150 250 "Some ''a''"]
        checkConflict_overlap_rule
          [of "[plain_task ''a'' 100 200, plain_task ''b'' 300 400]" 200 300 None]
  by (simp add: plain_task_def)

text \<open>
  C9. The detector is symmetric: the interval of \<open>b\<close> conflicts with the task \<open>a\<close> exactly
  when the interval of \<open>a\<close> conflicts with the task \<open>b\<close>. And a task excluded by its own id
  never conflicts with itself: in a collection that contains \<open>t\<close>, the answer for any
  candidate, with the id of \<open>t\<close> excluded, is the answer without \<open>t\<close> in the collection; a
  conflict found for the interval of \<open>t\<close> comes from a task with another id, and alone in
  the collection \<open>t\<close> has no conflict.
\<close>

theorem checkConflict_symmetric_self_excluded:
  "(checkConflict [a] (startTime b) (endTime b) None
      \<longleftrightarrow> checkConflict [b] (startTime a) (endTime a) None)
   \<and> (t \<in> set tasks \<longrightarrow>
        checkConflict tasks ns ne (Some (task_id t))
          = checkConflict (removeAll t tasks) ns ne (Some (task_id t)))
   \<and> (t \<in> set tasks \<longrightarrow>
        checkConflict tasks (startTime t) (endTime t) (Some (task_id t)) \<longrightarrow>
        (\<exists>u \<in> set tasks. task_id u \<noteq> task_id t
            \<and> startTime t < endTime u \<and> endTime t > startTime u))
   \<and> \<not> checkConflict [t] (startTime t) (endTime t) (Some (task_id t))"
  unfolding checkConflict_iff by auto

theorem checkConflict_symmetric_self_excluded_witness:
  "checkConflict [plain_task ''a'' 100 200] 150 250 None
   \<and> checkConflict [plain_task ''b'' 150 250] 100 200 None
   \<and> \<not> checkConflict [plain_task ''a'' 100 200, plain_task ''b'' 300 400] 100 200 (Some ''a'')
   \<and> \<not> checkConflict [plain_task ''b'' 300 400] 100 200 (Some ''a'')"
  using checkConflict_symmetric_self_excluded
          [of "plain_task ''a'' 100 200" "plain_task ''b'' 150 250" "plain_task ''a'' 100 200"
              "[plain_task ''a'' 100 200, plain_task ''b'' 300 400]" 100 200]
  by (simp add: plain_task_def checkConflict_def)

section \<open>The reminder scheduler\<close>

lemma remind_eq:
  "remind now t = (if spec_reminder_due now t then ([t], t\<lparr>reminderSent := True\<rparr>) else ([], t))"
  by (auto simp: remind_def spec_reminder_due_def Let_def)

lemma checkReminders_eq:
  "checkReminders now tasks =
     (filter (spec_reminder_due now) tasks,
      map (\<lambda>t. if spec_reminder_due now t then t\<lparr>reminderSent := True\<rparr> else t) tasks)"
  by (induction tasks) (auto simp: checkReminders_def remind_eq Let_def)

lemma checkReminders_length: "length (snd (checkReminders now tasks)) = length tasks"
  by (simp add: checkReminders_eq)

lemma checkReminders_nth:
  "i < length tasks \<Longrightarrow> snd (checkReminders now tasks) ! i = snd (remind now (tasks ! i))"
  by (simp add: checkReminders_def Let_def)

lemma polls_snd_Cons:
  "snd (polls (now # nows) tasks) = snd (polls nows (snd (checkReminders now tasks)))"
  by (simp add: split_beta)

lemma polls_length: "length (snd (polls nows tasks)) = length tasks"
  by (induction nows arbitrary: tasks) (simp_all add: polls_snd_Cons checkReminders_length del: polls.simps(2))

lemma polls_sent_mono:
  "i < length tasks \<Longrightarrow> reminderSent (tasks ! i) \<Longrightarrow> reminderSent (snd (polls nows tasks) ! i)"
proof (induction nows arbitrary: tasks)
  case Nil
  then show ?case by simp
next
  case (Cons now nows)
  let ?u = "snd (checkReminders now tasks)"
  have len: "i < length ?u" using Cons.prems by (simp add: checkReminders_length)
  have "reminderSent (?u ! i)"
    using Cons.prems by (simp add: checkReminders_nth remind_eq)
  with len have "reminderSent (snd (polls nows ?u) ! i)" by (rule Cons.IH)
  then show ?case by (simp add: polls_snd_Cons del: polls.simps(2))
qed

lemma remind_sets_sent:
  "fst (remind now t) \<noteq> [] \<Longrightarrow> reminderSent (snd (remind now t))"
  by (simp add: remind_eq split: if_splits)

lemma remind_silent_when_sent: "reminderSent t \<Longrightarrow> fst (remind now t) = []"
  by (simp add: remind_def)

text \<open>
  C2. In one poll, a task is handed to \<open>sendNotification\<close> and its \<open>reminderSent\<close> goes from
  false to true exactly when its reminder is on, it is not completed, it has not been
  notified, and it starts in more than 0 and at most 15 minutes; the calls of the poll are
  the due tasks, in order, and the new collection has the flag set on exactly these. Over
  repeated polls, each on the collection the last one returned, a task that fired never
  fires again, at whatever instants the later polls run, and a flag that is true stays true.
\<close>

theorem checkReminders_fires_exactly_once:
  "checkReminders now tasks =
     (filter (spec_reminder_due now) tasks,
      map (\<lambda>t. if spec_reminder_due now t then t\<lparr>reminderSent := True\<rparr> else t) tasks)
   \<and> (\<forall>i < length tasks.
         (fst (remind now (tasks ! i)) = [tasks ! i] \<and> \<not> reminderSent (tasks ! i)
            \<and> reminderSent (snd (checkReminders now tasks) ! i))
         \<longleftrightarrow> spec_reminder_due now (tasks ! i))
   \<and> (\<forall>i < length tasks.
         fst (remind now (tasks ! i)) \<noteq> [] \<longrightarrow>
         (\<forall>nows now'.
            fst (remind now' (snd (polls nows (snd (checkReminders now tasks))) ! i)) = []))
   \<and> (\<forall>i < length tasks.
         reminderSent (tasks ! i) \<longrightarrow> (\<forall>nows. reminderSent (snd (polls nows tasks) ! i)))"
proof (intro conjI allI impI)
  show "checkReminders now tasks =
     (filter (spec_reminder_due now) tasks,
      map (\<lambda>t. if spec_reminder_due now t then t\<lparr>reminderSent := True\<rparr> else t) tasks)"
    by (rule checkReminders_eq)
next
  fix i assume "i < length tasks"
  then show "(fst (remind now (tasks ! i)) = [tasks ! i] \<and> \<not> reminderSent (tasks ! i)
            \<and> reminderSent (snd (checkReminders now tasks) ! i))
         \<longleftrightarrow> spec_reminder_due now (tasks ! i)"
    by (auto simp: checkReminders_nth remind_eq spec_reminder_due_def)
next
  fix i nows now'
  assume i: "i < length tasks" and fired: "fst (remind now (tasks ! i)) \<noteq> []"
  let ?u = "snd (checkReminders now tasks)"
  have "reminderSent (?u ! i)"
    using i fired by (simp add: checkReminders_nth remind_sets_sent)
  moreover have "i < length ?u" using i by (simp add: checkReminders_length)
  ultimately have "reminderSent (snd (polls nows ?u) ! i)" by (simp add: polls_sent_mono)
  then show "fst (remind now' (snd (polls nows ?u) ! i)) = []"
    by (rule remind_silent_when_sent)
next
  fix i nows
  assume "i < length tasks" "reminderSent (tasks ! i)"
  then show "reminderSent (snd (polls nows tasks) ! i)" by (rule polls_sent_mono)
qed

theorem checkReminders_fires_exactly_once_witness:
  "checkReminders 0 [plain_task ''a'' 600000 4200000, plain_task ''b'' 1200000 4800000]
     = ([plain_task ''a'' 600000 4200000],
        [(plain_task ''a'' 600000 4200000)\<lparr>reminderSent := True\<rparr>, plain_task ''b'' 1200000 4800000])
   \<and> spec_reminder_due 0 (plain_task ''a'' 600000 4200000)
   \<and> \<not> spec_reminder_due 0 (plain_task ''b'' 1200000 4800000)
   \<and> fst (remind 1000
        (snd (polls []
           (snd (checkReminders 0
              [plain_task ''a'' 600000 4200000, plain_task ''b'' 1200000 4800000])))
         ! 0)) = []
   \<and> fst (polls [0, 1000, 400000]
        [plain_task ''a'' 600000 4200000, plain_task ''b'' 1200000 4800000])
      = [[plain_task ''a'' 600000 4200000], [], [plain_task ''b'' 1200000 4800000]]"
  using checkReminders_fires_exactly_once
          [of 0 "[plain_task ''a'' 600000 4200000, plain_task ''b'' 1200000 4800000]"]
  by (simp add: plain_task_def spec_reminder_due_def remind_def checkReminders_def)

text \<open>
  C8. A poll returns a collection of the same length, in which every task that is outside
  the window of more than 0 and at most 15 minutes, or completed, or already notified, or
  has its reminder off, stands at its place with every field as it was.
\<close>

theorem checkReminders_frame:
  "length (snd (checkReminders now tasks)) = length tasks
   \<and> (\<forall>i < length tasks.
        (\<not> (0 < real_of_int (startTime (tasks ! i) - now) / 60000
             \<and> real_of_int (startTime (tasks ! i) - now) / 60000 \<le> 15)
         \<or> completed (tasks ! i) \<or> reminderSent (tasks ! i) \<or> \<not> reminder (tasks ! i))
        \<longrightarrow> snd (checkReminders now tasks) ! i = tasks ! i)"
  by (auto simp: checkReminders_eq spec_reminder_due_def)

theorem checkReminders_frame_witness:
  "snd (checkReminders 0
      [plain_task ''a'' 600000 4200000, plain_task ''b'' 1200000 4800000,
       (plain_task ''c'' 600000 4200000)\<lparr>completed := True\<rparr>,
       (plain_task ''d'' 600000 4200000)\<lparr>reminderSent := True\<rparr>,
       (plain_task ''e'' 600000 4200000)\<lparr>reminder := False\<rparr>]) ! 1 = plain_task ''b'' 1200000 4800000
   \<and> snd (checkReminders 0
      [plain_task ''a'' 600000 4200000, plain_task ''b'' 1200000 4800000,
       (plain_task ''c'' 600000 4200000)\<lparr>completed := True\<rparr>,
       (plain_task ''d'' 600000 4200000)\<lparr>reminderSent := True\<rparr>,
       (plain_task ''e'' 600000 4200000)\<lparr>reminder := False\<rparr>]) ! 2 = (plain_task ''c'' 600000 4200000)\<lparr>completed := True\<rparr>"
  using checkReminders_frame
          [of 0 "[plain_task ''a'' 600000 4200000, plain_task ''b'' 1200000 4800000,
       (plain_task ''c'' 600000 4200000)\<lparr>completed := True\<rparr>,
       (plain_task ''d'' 600000 4200000)\<lparr>reminderSent := True\<rparr>,
       (plain_task ''e'' 600000 4200000)\<lparr>reminder := False\<rparr>]"]
  by (simp add: plain_task_def)

section \<open>The intent resolver\<close>

subsection \<open>Category inference\<close>

text \<open>
  C4, as amended. The three keyword sets are tested in the order work, health, personal,
  and each match assigns over the one before, so the last set that matches wins: personal
  before health before work. A title matching no set gets \<open>general\<close>.
\<close>

theorem infer_category_last_match_wins:
  "infer_category ttl =
     (if test_ci personal_words ttl then ''personal''
      else if test_ci health_words ttl then ''health''
      else if test_ci work_words ttl then ''work''
      else ''general'')"
  by (simp add: infer_category_def)

theorem infer_category_last_match_wins_witness:
  "infer_category ''Review over lunch'' = ''personal''
   \<and> infer_category ''Gym review'' = ''health''
   \<and> infer_category ''Team sync'' = ''work''
   \<and> infer_category ''Laundry'' = ''general''"
  using infer_category_last_match_wins [of "''Review over lunch''"]
        infer_category_last_match_wins [of "''Gym review''"]
        infer_category_last_match_wins [of "''Team sync''"]
        infer_category_last_match_wins [of "''Laundry''"]
  by code_simp

text \<open>
  C4 as stated fails: a title with both \<open>review\<close> (work) and \<open>lunch\<close> (personal) matches the
  work set and the personal set, and its category is not \<open>work\<close>.
\<close>

theorem infer_category_first_match_counterexample:
  "test_ci work_words ''Review over lunch'' \<and> test_ci personal_words ''Review over lunch''
   \<and> infer_category ''Review over lunch'' \<noteq> ''work''"
  by code_simp

subsection \<open>Facts about the scanner and the parts of a result\<close>

lemma is_digit_toLowerChar: "is_digit (toLowerChar c) = is_digit c"
  by (auto simp: is_digit_def toLowerChar_def code_def)

lemma match_clock_None_iff: "match_clock (c # s) = None \<longleftrightarrow> \<not> is_digit c"
  by (auto simp: match_clock_def Let_def)

lemma scan_times_Nil_iff: "scan_times s = [] \<longleftrightarrow> (\<forall>c \<in> set s. \<not> is_digit c)"
proof (induction s rule: scan_times.induct)
  case 1
  then show ?case by simp
next
  case (2 c s)
  show ?case
  proof (cases "match_clock (c # s)")
    case None
    moreover from None have "\<not> is_digit c" by (simp add: match_clock_None_iff)
    ultimately show ?thesis using 2(1) by simp
  next
    case (Some r)
    then have "is_digit c" using match_clock_None_iff [of c s] by auto
    with Some show ?thesis by (auto split: prod.splits)
  qed
qed

lemma scan_times_toLowerCase_Nil_iff:
  "scan_times (toLowerCase msg) = [] \<longleftrightarrow> (\<forall>c \<in> set msg. \<not> is_digit c)"
  by (simp add: scan_times_Nil_iff toLowerCase_def is_digit_toLowerChar)

lemma checkConflict_Nil: "\<not> checkConflict [] s e x"
  by (simp add: checkConflict_def)

lemma colors_work: "colors ''work'' = Some ''#4A90D9''"
  by (simp add: colors_def)

subsection \<open>No time of day\<close>

text \<open>
  C7. When the scan finds no time of day, the resolver returns a failure value: \<open>success\<close>
  is false, the message is the request for a time, and there is neither a list of
  alternatives nor a task.
\<close>

theorem parseTaskFromNL_no_time:
  "scan_times (toLowerCase msg) = [] \<Longrightarrow>
     parseTaskFromNL tz newId msg tasks selectedDate
       = \<lparr>success = False, conflict = None, newTask = None, message = NoTimeMessage\<rparr>"
  by (simp add: parseTaskFromNL_def Let_def)

theorem parseTaskFromNL_no_time_witness:
  "scan_times (toLowerCase ''Schedule a meeting tomorrow'') = []
   \<and> parseTaskFromNL 0 ''x1'' ''Schedule a meeting tomorrow'' [plain_task ''a'' 100 200] 0
       = \<lparr>success = False, conflict = None, newTask = None, message = NoTimeMessage\<rparr>"
proof -
  have h: "scan_times (toLowerCase ''Schedule a meeting tomorrow'') = []" by code_simp
  show ?thesis
    using h parseTaskFromNL_no_time [OF h, of 0 "''x1''" "[plain_task ''a'' 100 200]" 0] by simp
qed

subsection \<open>The round trip\<close>

lemma team_sync_times:
  "scan_times (toLowerCase ''Schedule team sync tomorrow at 2 PM for 1 hour'') = [(14, 0), (1, 0)]"
  by code_simp

lemma team_sync_date:
  "resolve_date (toLowerCase ''Schedule team sync tomorrow at 2 PM for 1 hour'') d = addDays d 1"
proof -
  have "includes_str (toLowerCase ''Schedule team sync tomorrow at 2 PM for 1 hour'') ''tomorrow''"
    by code_simp
  then show ?thesis by (simp add: resolve_date_def)
qed

lemma team_sync_duration:
  "resolve_duration (toLowerCase ''Schedule team sync tomorrow at 2 PM for 1 hour'') = 60"
  by code_simp

lemma team_sync_title:
  "resolve_title ''Schedule team sync tomorrow at 2 PM for 1 hour'' = ''Team sync''"
  by code_simp

lemma team_sync_category: "infer_category ''Team sync'' = ''work''"
  by code_simp

text \<open>
  C5. For "Schedule team sync tomorrow at 2 PM for 1 hour", no tasks and the reference date
  \<open>D\<close>, in any time zone and with any fresh id, the result is a success whose draft has the
  title "Team sync", the category \<open>work\<close> with the colour of \<open>work\<close>, the priority
  \<open>medium\<close>, the reminder on, \<open>reminderSent\<close> and \<open>completed\<close> false, and runs from 14:00 to
  15:00 local time on the local day after that of \<open>D\<close>: on the local clock, the start is
  14 hours and the end 15 hours after the midnight that ends the day of \<open>D\<close>.
\<close>

theorem parseTaskFromNL_team_sync:
  "parseTaskFromNL tz newId ''Schedule team sync tomorrow at 2 PM for 1 hour'' [] D =
     \<lparr>success = True, conflict = None,
      newTask = Some
        \<lparr>task_id = newId, title = ''Team sync'', description = ''Added via AI assistant'',
         startTime = setHours tz (addDays D 1) 14 0,
         endTime = setHours tz (addDays D 1) 15 0,
         completed = False, category = ''work'', priority = ''medium'',
         color = ''#4A90D9'', reminder = True, reminderSent = False\<rparr>,
      message = AddedMessage ''Team sync'' (addDays D 1)
                  (setHours tz (addDays D 1) 14 0) (setHours tz (addDays D 1) 15 0)\<rparr>
   \<and> colors ''work'' = Some ''#4A90D9''
   \<and> localTime tz (setHours tz (addDays D 1) 14 0)
       = (localTime tz D div 86400000 + 1) * 86400000 + 14 * 3600000
   \<and> localTime tz (setHours tz (addDays D 1) 15 0)
       = (localTime tz D div 86400000 + 1) * 86400000 + 15 * 3600000
   \<and> localTime tz (setHours tz (addDays D 1) 14 0) div 86400000 = localTime tz D div 86400000 + 1
   \<and> getHours tz (setHours tz (addDays D 1) 14 0) = 14
   \<and> getMinutes tz (setHours tz (addDays D 1) 14 0) = 0
   \<and> localTime tz (setHours tz (addDays D 1) 15 0) div 86400000 = localTime tz D div 86400000 + 1
   \<and> getHours tz (setHours tz (addDays D 1) 15 0) = 15
   \<and> getMinutes tz (setHours tz (addDays D 1) 15 0) = 0"
proof -
  have parse: "parseTaskFromNL tz newId ''Schedule team sync tomorrow at 2 PM for 1 hour'' [] D =
     \<lparr>success = True, conflict = None,
      newTask = Some
        \<lparr>task_id = newId, title = ''Team sync'', description = ''Added via AI assistant'',
         startTime = setHours tz (addDays D 1) 14 0,
         endTime = setHours tz (addDays D 1) 15 0,
         completed = False, category = ''work'', priority = ''medium'',
         color = ''#4A90D9'', reminder = True, reminderSent = False\<rparr>,
      message = AddedMessage ''Team sync'' (addDays D 1)
                  (setHours tz (addDays D 1) 14 0) (setHours tz (addDays D 1) 15 0)\<rparr>"
    unfolding parseTaskFromNL_def Let_def team_sync_times team_sync_date team_sync_duration
      team_sync_title team_sync_category
    by (simp add: checkConflict_Nil colors_work setHours_def)
  define q where "q = (D + 86400000 + tz * 60000) div 86400000"
  have s14: "localTime tz (setHours tz (addDays D 1) 14 0) = q * 86400000 + 14 * 3600000"
    by (simp add: localTime_def setHours_def addDays_def q_def)
  have s15: "localTime tz (setHours tz (addDays D 1) 15 0) = q * 86400000 + 15 * 3600000"
    by (simp add: localTime_def setHours_def addDays_def q_def)
  have q: "q = localTime tz D div 86400000 + 1"
    by (simp add: q_def localTime_def)
  have d14: "(q * 86400000 + 14 * 3600000) div 86400000 = q" by simp
  have d15: "(q * 86400000 + 15 * 3600000) div 86400000 = q" by simp
  have h14: "((q * 86400000 + 14 * 3600000) div 3600000) mod 24 = 14"
  proof -
    have "q * 86400000 + 14 * 3600000 = (q * 24 + 14) * 3600000" by simp
    then have "(q * 86400000 + 14 * 3600000) div 3600000 = q * 24 + 14" by simp
    then show ?thesis by simp
  qed
  have h15: "((q * 86400000 + 15 * 3600000) div 3600000) mod 24 = 15"
  proof -
    have "q * 86400000 + 15 * 3600000 = (q * 24 + 15) * 3600000" by simp
    then have "(q * 86400000 + 15 * 3600000) div 3600000 = q * 24 + 15" by simp
    then show ?thesis by simp
  qed
  have m14: "((q * 86400000 + 14 * 3600000) div 60000) mod 60 = 0"
  proof -
    have "q * 86400000 + 14 * 3600000 = (q * 1440 + 840) * 60000" by simp
    then have "(q * 86400000 + 14 * 3600000) div 60000 = (q * 24 + 14) * 60" by simp
    then show ?thesis by simp
  qed
  have m15: "((q * 86400000 + 15 * 3600000) div 60000) mod 60 = 0"
  proof -
    have "q * 86400000 + 15 * 3600000 = (q * 1440 + 900) * 60000" by simp
    then have "(q * 86400000 + 15 * 3600000) div 60000 = (q * 24 + 15) * 60" by simp
    then show ?thesis by simp
  qed
  show ?thesis
    unfolding getHours_def getMinutes_def s14 s15 d14 d15 h14 h15 m14 m15
    using parse q colors_work by simp
qed

theorem parseTaskFromNL_team_sync_witness:
  "map_option title
      (newTask (parseTaskFromNL 120 ''k3x9'' ''Schedule team sync tomorrow at 2 PM for 1 hour'' [] 0))
     = Some ''Team sync''
   \<and> map_option startTime
      (newTask (parseTaskFromNL 120 ''k3x9'' ''Schedule team sync tomorrow at 2 PM for 1 hour'' [] 0))
     = Some 129600000
   \<and> map_option endTime
      (newTask (parseTaskFromNL 120 ''k3x9'' ''Schedule team sync tomorrow at 2 PM for 1 hour'' [] 0))
     = Some 133200000"
  using parseTaskFromNL_team_sync [of 120 "''k3x9''" 0]
  by (simp add: setHours_def addDays_def localTime_def)

subsection \<open>Bare numbers\<close>

lemma review30_times:
  "scan_times (toLowerCase ''Schedule 30 minute review'') = [(30, 0)]"
  by code_simp

lemma review30_title: "resolve_title ''Schedule 30 minute review'' = ''30 minute review''"
  by code_simp

lemma review30_date: "resolve_date (toLowerCase ''Schedule 30 minute review'') d = d"
proof -
  have "\<not> includes_str (toLowerCase ''Schedule 30 minute review'') ''tomorrow''"
       "\<not> includes_str (toLowerCase ''Schedule 30 minute review'') ''next week''"
    by code_simp+
  then show ?thesis by (simp add: resolve_date_def)
qed

lemma review30_duration: "resolve_duration (toLowerCase ''Schedule 30 minute review'') = 30"
  by code_simp

lemma review30_category: "infer_category ''30 minute review'' = ''work''"
  by code_simp

lemma toLowerChar_idem: "toLowerChar (toLowerChar c) = toLowerChar c"
  by (auto simp: toLowerChar_def code_def)

lemma scan_times_skip:
  "scan_times s = scan_times (dropWhile (\<lambda>c. \<not> is_digit c) s)"
proof (induction s)
  case Nil
  then show ?case by simp
next
  case (Cons c s)
  show ?case
  proof (cases "is_digit c")
    case True
    then show ?thesis by simp
  next
    case False
    then have "match_clock (c # s) = None" by (simp add: match_clock_None_iff)
    with False Cons show ?thesis by simp
  qed
qed

lemma dropWhile_digit_Cons:
  "\<exists>c \<in> set s. is_digit c \<Longrightarrow>
   \<exists>c r. dropWhile (\<lambda>c. \<not> is_digit c) s = c # r \<and> is_digit c"
  by (induction s) auto

lemma startsWith_ci_lower:
  "\<forall>c \<in> set s. toLowerChar c = c \<Longrightarrow> startsWith_ci s p \<Longrightarrow> take (length p) s = p"
  by (induction s p rule: startsWith_ci.induct) auto

lemma match_clock_shape:
  assumes "match_clock s = Some ((d, mm, ap), n)"
  shows "d = takeWhile is_digit (take 2 s)" and "d \<noteq> []" and "length d \<le> 2"
  using assms
  by (auto simp: match_clock_def Let_def split: if_splits
           intro: order_trans [OF length_takeWhile_le])

lemma match_clock_ampm:
  assumes low: "\<forall>c \<in> set s. toLowerChar c = c"
    and m: "match_clock s = Some ((d, mm, ap), n)"
  shows "ap \<in> {None, Some ''am'', Some ''pm''}"
proof -
  define r1 where "r1 = drop (length (takeWhile is_digit (take 2 s))) s"
  define mm0 where "mm0 =
     (case r1 of
        c # a # b # _ \<Rightarrow> if c = CHR '':'' \<and> is_digit a \<and> is_digit b then Some [a, b] else None
      | _ \<Rightarrow> None)"
  define r2 where "r2 = (case mm0 of None \<Rightarrow> r1 | Some _ \<Rightarrow> drop 3 r1)"
  define r3 where "r3 = drop (length (takeWhile is_space r2)) r2"
  have ap: "ap = (if startsWith_ci r3 ''am'' \<or> startsWith_ci r3 ''pm'' then Some (take 2 r3) else None)"
    using m unfolding match_clock_def Let_def r1_def [symmetric] mm0_def [symmetric]
      r2_def [symmetric] r3_def [symmetric]
    by (auto split: if_splits)
  have "set r1 \<subseteq> set s" unfolding r1_def by (rule set_drop_subset)
  moreover have "set r2 \<subseteq> set r1"
    unfolding r2_def by (cases mm0) (simp_all add: set_drop_subset)
  moreover have "set r3 \<subseteq> set r2" unfolding r3_def by (rule set_drop_subset)
  ultimately have low3: "\<forall>c \<in> set r3. toLowerChar c = c" using low by blast
  have "take 2 r3 = ''am''" if "startsWith_ci r3 ''am''"
    using startsWith_ci_lower [OF low3 that] by (simp add: numeral_2_eq_2)
  moreover have "take 2 r3 = ''pm''" if "startsWith_ci r3 ''pm''"
    using startsWith_ci_lower [OF low3 that] by (simp add: numeral_2_eq_2)
  ultimately show ?thesis unfolding ap by auto
qed

lemma toLowerCase_is_lower: "\<forall>c \<in> set (toLowerCase msg). toLowerChar c = c"
  by (auto simp: toLowerCase_def toLowerChar_idem)

lemma time_of_hour:
  "time_of (d, mm, ap) =
     (if ap = Some ''pm'' \<and> parseInt d \<noteq> 12 then parseInt d + 12
      else if ap = Some ''am'' \<and> parseInt d = 12 then 0 else parseInt d,
      parseInt (case mm of None \<Rightarrow> ''0'' | Some x \<Rightarrow> x))"
  by (simp add: time_of_def Let_def)

lemma review120_times:
  "scan_times (toLowerCase ''Schedule 120 minute review'') = [(12, 0), (0, 0)]"
  by code_simp

lemma review120_date: "resolve_date (toLowerCase ''Schedule 120 minute review'') d = d"
proof -
  have "\<not> includes_str (toLowerCase ''Schedule 120 minute review'') ''tomorrow''"
       "\<not> includes_str (toLowerCase ''Schedule 120 minute review'') ''next week''"
    by code_simp+
  then show ?thesis by (simp add: resolve_date_def)
qed

lemma apples_times:
  "scan_times (toLowerCase ''Buy 12 amazing apples'') = [(0, 0)]"
  by code_simp

lemma apples_date: "resolve_date (toLowerCase ''Buy 12 amazing apples'') d = d"
proof -
  have "\<not> includes_str (toLowerCase ''Buy 12 amazing apples'') ''tomorrow''"
       "\<not> includes_str (toLowerCase ''Buy 12 amazing apples'') ''next week''"
    by code_simp+
  then show ?thesis by (simp add: resolve_date_def)
qed

lemma first_mention:
  assumes "\<exists>c \<in> set msg. is_digit c"
  shows "\<exists>d mm ap n.
           match_clock (dropWhile (\<lambda>c. \<not> is_digit c) (toLowerCase msg)) = Some ((d, mm, ap), n)
           \<and> d = takeWhile is_digit (take 2 (dropWhile (\<lambda>c. \<not> is_digit c) (toLowerCase msg)))
           \<and> d \<noteq> [] \<and> length d \<le> 2
           \<and> ap \<in> {None, Some ''am'', Some ''pm''}
           \<and> scan_times (toLowerCase msg)
               = time_of (d, mm, ap)
                 # scan_times (drop n (dropWhile (\<lambda>c. \<not> is_digit c) (toLowerCase msg)))"
proof -
  let ?rest = "dropWhile (\<lambda>c. \<not> is_digit c) (toLowerCase msg)"
  from assms have "\<exists>c \<in> set (toLowerCase msg). is_digit c"
    by (auto simp: toLowerCase_def is_digit_toLowerChar)
  then obtain c r where rest: "?rest = c # r" and c: "is_digit c"
    using dropWhile_digit_Cons by blast
  from c have "match_clock (c # r) \<noteq> None" by (simp add: match_clock_None_iff)
  then obtain d mm ap n where m: "match_clock (c # r) = Some ((d, mm, ap), n)" by auto
  have low: "\<forall>x \<in> set (c # r). toLowerChar x = x"
    using toLowerCase_is_lower [of msg] set_dropWhileD [of _ "\<lambda>c. \<not> is_digit c" "toLowerCase msg"]
    unfolding rest [symmetric] by blast
  have "scan_times (toLowerCase msg) = scan_times (c # r)"
    using scan_times_skip [of "toLowerCase msg"] by (simp only: rest)
  also have "\<dots> = time_of (d, mm, ap) # scan_times (drop n (c # r))"
    using m by simp
  finally have sc: "scan_times (toLowerCase msg) = time_of (d, mm, ap) # scan_times (drop n (c # r))" .
  show ?thesis
    unfolding rest
    using m match_clock_shape [OF m] match_clock_ampm [OF low m] sc by blast
qed

text \<open>
  C10, as amended. Any digit is the start of a time-of-day mention, with or without a colon,
  \<open>am\<close>, \<open>pm\<close> or \<open>at\<close>: the resolver answers with the request for a time exactly when the
  utterance has no digit, and it answers with a draft or a conflict exactly when there is
  one. The mention that is used starts at the first digit of the utterance, and its hour is
  the number written by the first one or two digits there, not by the whole number: 12 is
  added when \<open>pm\<close> follows (behind two digits of minutes after a colon, if any, and white
  space) and the number is not 12, and the hour is 0 when \<open>am\<close> follows and the number is 12,
  also when these letters begin another word. So "Schedule 30 minute review" starts at hour
  30, that is 30 hours after the local midnight of the reference date, "Schedule 120 minute
  review" at hour 12 and "Buy 12 amazing apples" at hour 0.
\<close>

theorem parseTaskFromNL_first_digits_are_hour:
  "(message (parseTaskFromNL tz newId msg tasks selectedDate) = NoTimeMessage
      \<longleftrightarrow> (\<forall>c \<in> set msg. \<not> is_digit c))
   \<and> (success (parseTaskFromNL tz newId msg tasks selectedDate) \<or>
       conflict (parseTaskFromNL tz newId msg tasks selectedDate) = Some True
      \<longleftrightarrow> (\<exists>c \<in> set msg. is_digit c))
   \<and> ((\<exists>c \<in> set msg. is_digit c) \<longrightarrow>
       (\<exists>d mm ap n hour mn.
          match_clock (dropWhile (\<lambda>c. \<not> is_digit c) (toLowerCase msg)) = Some ((d, mm, ap), n)
          \<and> d = takeWhile is_digit (take 2 (dropWhile (\<lambda>c. \<not> is_digit c) (toLowerCase msg)))
          \<and> d \<noteq> [] \<and> length d \<le> 2
          \<and> ap \<in> {None, Some ''am'', Some ''pm''}
          \<and> hour = (if ap = Some ''pm'' \<and> parseInt d \<noteq> 12 then parseInt d + 12
                     else if ap = Some ''am'' \<and> parseInt d = 12 then 0 else parseInt d)
          \<and> mn = parseInt (case mm of None \<Rightarrow> ''0'' | Some x \<Rightarrow> x)
          \<and> hd (scan_times (toLowerCase msg)) = (hour, mn)
          \<and> (conflict (parseTaskFromNL tz newId msg tasks selectedDate) = Some True
              \<or> map_option startTime (newTask (parseTaskFromNL tz newId msg tasks selectedDate))
                  = Some (setHours tz (resolve_date (toLowerCase msg) selectedDate) hour mn))))
   \<and> scan_times (toLowerCase ''Schedule 30 minute review'') = [(30, 0)]
   \<and> parseTaskFromNL tz newId ''Schedule 30 minute review'' [] selectedDate =
       \<lparr>success = True, conflict = None,
        newTask = Some
          \<lparr>task_id = newId, title = ''30 minute review'',
           description = ''Added via AI assistant'',
           startTime = setHours tz selectedDate 30 0,
           endTime = setHours tz selectedDate 30 0 + 30 * 60000,
           completed = False, category = ''work'', priority = ''medium'',
           color = ''#4A90D9'', reminder = True, reminderSent = False\<rparr>,
        message = AddedMessage ''30 minute review'' selectedDate
                    (setHours tz selectedDate 30 0) (setHours tz selectedDate 30 0 + 30 * 60000)\<rparr>
   \<and> setHours tz selectedDate 30 0 = setHours tz selectedDate 0 0 + 30 * 3600000
   \<and> map_option startTime (newTask (parseTaskFromNL tz newId ''Schedule 120 minute review'' [] selectedDate))
       = Some (setHours tz selectedDate 12 0)
   \<and> map_option startTime (newTask (parseTaskFromNL tz newId ''Buy 12 amazing apples'' [] selectedDate))
       = Some (setHours tz selectedDate 0 0)"
proof (intro conjI impI)
  show "message (parseTaskFromNL tz newId msg tasks selectedDate) = NoTimeMessage
      \<longleftrightarrow> (\<forall>c \<in> set msg. \<not> is_digit c)"
    unfolding scan_times_toLowerCase_Nil_iff [symmetric]
    by (simp add: parseTaskFromNL_def Let_def split: list.splits prod.splits)
  show "success (parseTaskFromNL tz newId msg tasks selectedDate) \<or>
       conflict (parseTaskFromNL tz newId msg tasks selectedDate) = Some True
      \<longleftrightarrow> (\<exists>c \<in> set msg. is_digit c)"
    using scan_times_toLowerCase_Nil_iff [of msg]
    by (auto simp: parseTaskFromNL_def Let_def split: list.splits prod.splits)
  show "scan_times (toLowerCase ''Schedule 30 minute review'') = [(30, 0)]"
    by (rule review30_times)
  show "parseTaskFromNL tz newId ''Schedule 30 minute review'' [] selectedDate =
       \<lparr>success = True, conflict = None,
        newTask = Some
          \<lparr>task_id = newId, title = ''30 minute review'',
           description = ''Added via AI assistant'',
           startTime = setHours tz selectedDate 30 0,
           endTime = setHours tz selectedDate 30 0 + 30 * 60000,
           completed = False, category = ''work'', priority = ''medium'',
           color = ''#4A90D9'', reminder = True, reminderSent = False\<rparr>,
        message = AddedMessage ''30 minute review'' selectedDate
                    (setHours tz selectedDate 30 0) (setHours tz selectedDate 30 0 + 30 * 60000)\<rparr>"
    unfolding parseTaskFromNL_def Let_def review30_times review30_date review30_duration
      review30_title review30_category
    by (simp add: checkConflict_Nil colors_work)
  show "setHours tz selectedDate 30 0 = setHours tz selectedDate 0 0 + 30 * 3600000"
    by (simp add: setHours_def)
  show "map_option startTime (newTask (parseTaskFromNL tz newId ''Schedule 120 minute review'' [] selectedDate))
       = Some (setHours tz selectedDate 12 0)"
    unfolding parseTaskFromNL_def Let_def review120_times review120_date
    by (simp add: checkConflict_Nil)
  show "map_option startTime (newTask (parseTaskFromNL tz newId ''Buy 12 amazing apples'' [] selectedDate))
       = Some (setHours tz selectedDate 0 0)"
    unfolding parseTaskFromNL_def Let_def apples_times apples_date
    by (simp add: checkConflict_Nil)
next
  let ?rest = "dropWhile (\<lambda>c. \<not> is_digit c) (toLowerCase msg)"
  let ?R = "parseTaskFromNL tz newId msg tasks selectedDate"
  assume "\<exists>c \<in> set msg. is_digit c"
  from first_mention [OF this] obtain d mm ap n where
    m: "match_clock ?rest = Some ((d, mm, ap), n)"
    and d: "d = takeWhile is_digit (take 2 ?rest)" "d \<noteq> []" "length d \<le> 2"
    and ap: "ap \<in> {None, Some ''am'', Some ''pm''}"
    and sc: "scan_times (toLowerCase msg) = time_of (d, mm, ap) # scan_times (drop n ?rest)"
    by blast
  define hour where "hour = (if ap = Some ''pm'' \<and> parseInt d \<noteq> 12 then parseInt d + 12
                     else if ap = Some ''am'' \<and> parseInt d = 12 then 0 else parseInt d)"
  define mn where "mn = parseInt (case mm of None \<Rightarrow> ''0'' | Some x \<Rightarrow> x)"
  have t: "time_of (d, mm, ap) = (hour, mn)"
    by (simp only: time_of_hour hour_def mn_def)
  have hd: "hd (scan_times (toLowerCase msg)) = (hour, mn)"
    by (simp add: sc t)
  have res: "conflict ?R = Some True
              \<or> map_option startTime (newTask ?R)
                  = Some (setHours tz (resolve_date (toLowerCase msg) selectedDate) hour mn)"
    by (simp add: parseTaskFromNL_def Let_def sc t)
  show "\<exists>d mm ap n hour mn.
          match_clock ?rest = Some ((d, mm, ap), n)
          \<and> d = takeWhile is_digit (take 2 ?rest)
          \<and> d \<noteq> [] \<and> length d \<le> 2
          \<and> ap \<in> {None, Some ''am'', Some ''pm''}
          \<and> hour = (if ap = Some ''pm'' \<and> parseInt d \<noteq> 12 then parseInt d + 12
                     else if ap = Some ''am'' \<and> parseInt d = 12 then 0 else parseInt d)
          \<and> mn = parseInt (case mm of None \<Rightarrow> ''0'' | Some x \<Rightarrow> x)
          \<and> hd (scan_times (toLowerCase msg)) = (hour, mn)
          \<and> (conflict ?R = Some True
              \<or> map_option startTime (newTask ?R)
                  = Some (setHours tz (resolve_date (toLowerCase msg) selectedDate) hour mn))"
    using m d ap hd res hour_def mn_def by blast
qed

theorem parseTaskFromNL_first_digits_are_hour_witness:
  "message (parseTaskFromNL 0 ''x1'' ''Buy 3 apples'' [] 0) \<noteq> NoTimeMessage
   \<and> message (parseTaskFromNL 0 ''x1'' ''Buy apples'' [] 0) = NoTimeMessage
   \<and> match_clock (dropWhile (\<lambda>c. \<not> is_digit c) (toLowerCase ''Lunch 7:45 pm''))
       = Some ((''7'', Some ''45'', Some ''pm''), 7)
   \<and> map_option startTime (newTask (parseTaskFromNL 0 ''x1'' ''Lunch 7:45 pm'' [] 0))
       = Some 71100000
   \<and> map_option startTime (newTask (parseTaskFromNL 0 ''x1'' ''Schedule 30 minute review'' [] 0))
       = Some 108000000
   \<and> map_option startTime (newTask (parseTaskFromNL 0 ''x1'' ''Schedule 120 minute review'' [] 0))
       = Some 43200000"
proof -
  have a: "\<exists>c \<in> set ''Buy 3 apples''. is_digit c" by code_simp
  have b: "\<forall>c \<in> set ''Buy apples''. \<not> is_digit c" by code_simp
  have c: "\<exists>c \<in> set ''Lunch 7:45 pm''. is_digit c" by code_simp
  have m: "match_clock (dropWhile (\<lambda>c. \<not> is_digit c) (toLowerCase ''Lunch 7:45 pm''))
       = Some ((''7'', Some ''45'', Some ''pm''), 7)" by code_simp
  have p: "parseInt ''7'' = 7" "parseInt ''45'' = 45" by code_simp+
  have r: "resolve_date (toLowerCase ''Lunch 7:45 pm'') 0 = 0" by code_simp
  have n: "conflict (parseTaskFromNL 0 ''x1'' ''Lunch 7:45 pm'' [] 0) \<noteq> Some True"
    by (simp add: parseTaskFromNL_def Let_def checkConflict_Nil split: list.splits prod.splits)
  have k: "''7'' \<noteq> ''12''" by simp
  show ?thesis
    using a b c n parseTaskFromNL_first_digits_are_hour [of 0 "''x1''" "''Buy 3 apples''" "[]" 0]
      parseTaskFromNL_first_digits_are_hour [of 0 "''x1''" "''Buy apples''" "[]" 0]
      parseTaskFromNL_first_digits_are_hour [of 0 "''x1''" "''Lunch 7:45 pm''" "[]" 0]
    by (auto simp: m p r setHours_def localTime_def)
qed

text \<open>
  C10 as stated fails where it says that the first number is used as the start hour: the
  first number of "Schedule 120 minute review" is 120 and the start is at hour 12, and the
  first number of "Buy 12 amazing apples" is 12 and the start is at hour 0.
\<close>

theorem parseTaskFromNL_first_number_counterexample:
  "map_option startTime (newTask (parseTaskFromNL 0 ''x1'' ''Schedule 120 minute review'' [] 0))
     = Some (setHours 0 0 12 0)
   \<and> setHours 0 0 12 0 \<noteq> setHours 0 0 120 0
   \<and> map_option startTime (newTask (parseTaskFromNL 0 ''x1'' ''Buy 12 amazing apples'' [] 0))
     = Some (setHours 0 0 0 0)
   \<and> setHours 0 0 0 0 \<noteq> setHours 0 0 12 0"
proof -
  have "map_option startTime (newTask (parseTaskFromNL 0 ''x1'' ''Schedule 120 minute review'' [] 0))
     = Some (setHours 0 0 12 0)"
    unfolding parseTaskFromNL_def Let_def review120_times review120_date
    by (simp add: checkConflict_Nil)
  moreover have "map_option startTime (newTask (parseTaskFromNL 0 ''x1'' ''Buy 12 amazing apples'' [] 0))
     = Some (setHours 0 0 0 0)"
    unfolding parseTaskFromNL_def Let_def apples_times apples_date
    by (simp add: checkConflict_Nil)
  ultimately show ?thesis by (simp add: setHours_def localTime_def)
qed

subsection \<open>Alternatives on a conflict\<close>

lemma sweep_starts_sorted:
  "sorted (map slot_start free) \<Longrightarrow> \<forall>s \<in> set free. slot_start s \<le> cursor \<Longrightarrow>
   sweep tz ts cursor free = (cursor', free') \<Longrightarrow>
   sorted (map slot_start free') \<and> (\<forall>s \<in> set free'. slot_start s \<le> cursor')"
proof (induction ts arbitrary: cursor free)
  case Nil
  then show ?case by simp
next
  case (Cons t ts)
  let ?tStart = "minutesSinceMidnight tz (startTime t)"
  let ?tEnd = "minutesSinceMidnight tz (endTime t)"
  let ?free = "if ?tStart > cursor then free @ [\<lparr>slot_start = cursor, slot_end = ?tStart\<rparr>] else free"
  have step: "sweep tz ts (max cursor ?tEnd) ?free = (cursor', free')"
    using Cons.prems(3) by (simp add: Let_def)
  have "sorted (map slot_start ?free)"
    using Cons.prems(1,2) by (auto simp: sorted_append)
  moreover have "\<forall>s \<in> set ?free. slot_start s \<le> max cursor ?tEnd"
    using Cons.prems(2) by auto
  ultimately show ?case using Cons.IH step by blast
qed

lemma getFreeSlots_starts_sorted:
  "sorted (map slot_start (getFreeSlots tz tasks dateStr dayStart dayEnd))"
proof -
  let ?dayTasks = "sort_key startTime (filter (\<lambda>t. isoDate (startTime t) = dateStr) tasks)"
  obtain cursor free where sw: "sweep tz ?dayTasks (dayStart * 60) [] = (cursor, free)"
    by (cases "sweep tz ?dayTasks (dayStart * 60) []")
  have "sorted (map slot_start free) \<and> (\<forall>s \<in> set free. slot_start s \<le> cursor)"
    by (rule sweep_starts_sorted [OF _ _ sw]) simp_all
  then show ?thesis
    using sw by (auto simp: getFreeSlots_def Let_def sorted_append)
qed

lemma offered_sorted:
  "sorted (map slot_start free) \<Longrightarrow> sorted (map slot_start (offered free dur))"
  unfolding offered_def take_map [symmetric]
  by (intro sorted_wrt_take) (rule sorted_filter)

lemma offered_subseq: "subseq (offered free dur) free"
proof -
  have "subseq (take 3 (filter (\<lambda>s. slot_end s - slot_start s \<ge> dur) free))
          (filter (\<lambda>s. slot_end s - slot_start s \<ge> dur) free)"
    by (metis append_take_drop_id prefix_def prefix_imp_subseq)
  also have "subseq (filter (\<lambda>s. slot_end s - slot_start s \<ge> dur) free) free"
    by simp
  finally show ?thesis by (simp add: offered_def)
qed

lemma offered_long_enough: "s \<in> set (offered free dur) \<Longrightarrow> slot_end s - slot_start s \<ge> dur"
  by (auto simp: offered_def dest: in_set_takeD)

lemma suggest_clipped:
  "suggest free dur =
     map (\<lambda>s. (minutesToTime (slot_start s), minutesToTime (slot_start s + dur))) (offered free dur)"
proof -
  have "min (slot_end s) (slot_start s + dur) = slot_start s + dur"
    if "s \<in> set (offered free dur)" for s
    using offered_long_enough [OF that] by simp
  then show ?thesis by (simp add: suggest_def)
qed

text \<open>
  The shape of the answer on a conflict: a failure value with the flag \<open>conflict\<close> and at
  most three alternatives, each printed from its start to its start plus the duration read
  from the utterance, made from the first slots that \<open>getFreeSlots\<close> returns for the UTC
  date of the target date and that are at least as long as the duration, in the order of
  that list, which is the order of their starts.
\<close>

lemma conflict_alternatives_shape:
  assumes times: "scan_times (toLowerCase msg) = (hour, mn) # later"
    and target: "targetDate = resolve_date (toLowerCase msg) selectedDate"
    and dur: "durationMins = resolve_duration (toLowerCase msg)"
    and hit: "checkConflict tasks (setHours tz targetDate hour mn)
                (setHours tz targetDate hour mn + durationMins * 60000) None"
    and free: "freeSlots = getFreeSlots tz tasks (isoDate targetDate) 8 22"
  shows "parseTaskFromNL tz newId msg tasks selectedDate =
           \<lparr>success = False, conflict = Some True, newTask = None,
            message = ConflictMessage (suggest freeSlots durationMins)\<rparr>
         \<and> length (suggest freeSlots durationMins) \<le> 3
         \<and> suggest freeSlots durationMins =
             map (\<lambda>s. (minutesToTime (slot_start s), minutesToTime (slot_start s + durationMins)))
               (offered freeSlots durationMins)
         \<and> offered freeSlots durationMins =
             take 3 (filter (\<lambda>s. slot_end s - slot_start s \<ge> durationMins) freeSlots)
         \<and> subseq (offered freeSlots durationMins) freeSlots
         \<and> sorted (map slot_start (offered freeSlots durationMins))
         \<and> (\<forall>s \<in> set (offered freeSlots durationMins). slot_end s - slot_start s \<ge> durationMins)
         \<and> (freeSlots = [] \<longrightarrow> suggest freeSlots durationMins = [])"
proof (intro conjI)
  show "parseTaskFromNL tz newId msg tasks selectedDate =
           \<lparr>success = False, conflict = Some True, newTask = None,
            message = ConflictMessage (suggest freeSlots durationMins)\<rparr>"
    using times hit unfolding target dur free
    by (simp add: parseTaskFromNL_def Let_def)
  show "length (suggest freeSlots durationMins) \<le> 3"
    by (simp add: suggest_def offered_def)
  show "suggest freeSlots durationMins =
             map (\<lambda>s. (minutesToTime (slot_start s), minutesToTime (slot_start s + durationMins)))
               (offered freeSlots durationMins)"
    by (rule suggest_clipped)
  show "offered freeSlots durationMins =
             take 3 (filter (\<lambda>s. slot_end s - slot_start s \<ge> durationMins) freeSlots)"
    by (simp add: offered_def)
  show "subseq (offered freeSlots durationMins) freeSlots"
    by (rule offered_subseq)
  show "sorted (map slot_start (offered freeSlots durationMins))"
    unfolding free by (rule offered_sorted) (rule getFreeSlots_starts_sorted)
  show "\<forall>s \<in> set (offered freeSlots durationMins). slot_end s - slot_start s \<ge> durationMins"
    by (simp add: offered_long_enough)
  show "freeSlots = [] \<longrightarrow> suggest freeSlots durationMins = []"
    by (simp add: suggest_def offered_def)
qed

lemma busy_free_slots:
  "getFreeSlots 0 [plain_task ''a'' 136800000 140400000] 1 8 22
     = [\<lparr>slot_start = 480, slot_end = 840\<rparr>, \<lparr>slot_start = 900, slot_end = 1320\<rparr>]"
  by code_simp

lemma booked_free_slots:
  "getFreeSlots 0 [plain_task ''a'' 108000000 169200000] 1 8 22 = []"
  by code_simp

lemma conflict_alternatives_example:
  "parseTaskFromNL 0 ''x1'' ''Schedule team sync tomorrow at 2 PM for 1 hour''
       [plain_task ''a'' 136800000 140400000] 0 =
     \<lparr>success = False, conflict = Some True, newTask = None,
      message = ConflictMessage [(''08:00'', ''09:00''), (''15:00'', ''16:00'')]\<rparr>
   \<and> parseTaskFromNL 0 ''x1'' ''Schedule team sync tomorrow at 2 PM for 1 hour''
       [plain_task ''a'' 108000000 169200000] 0 =
     \<lparr>success = False, conflict = Some True, newTask = None, message = ConflictMessage []\<rparr>"
proof -
  have hit1: "checkConflict [plain_task ''a'' 136800000 140400000] (setHours 0 (addDays 0 1) 14 0)
                (setHours 0 (addDays 0 1) 14 0 + 60 * 60000) None"
    by (simp add: checkConflict_def plain_task_def setHours_def addDays_def localTime_def)
  have hit2: "checkConflict [plain_task ''a'' 108000000 169200000] (setHours 0 (addDays 0 1) 14 0)
                (setHours 0 (addDays 0 1) 14 0 + 60 * 60000) None"
    by (simp add: checkConflict_def plain_task_def setHours_def addDays_def localTime_def)
  have day: "isoDate (addDays 0 1) = 1" by (simp add: isoDate_def addDays_def)
  have s1: "suggest [\<lparr>slot_start = 480, slot_end = 840\<rparr>, \<lparr>slot_start = 900, slot_end = 1320\<rparr>] 60
              = [(''08:00'', ''09:00''), (''15:00'', ''16:00'')]"
    by code_simp
  have s2: "suggest [] 60 = []" by code_simp
  show ?thesis
    using conflict_alternatives_shape
            [OF team_sync_times team_sync_date [symmetric] team_sync_duration [symmetric] hit1 refl,
             of "''x1''"]
          conflict_alternatives_shape
            [OF team_sync_times team_sync_date [symmetric] team_sync_duration [symmetric] hit2 refl,
             of "''x1''"]
    by (simp add: day busy_free_slots booked_free_slots s1 s2)
qed

text \<open>
  C6. The claim is that the alternatives are free slots of that day and that the list is
  empty when the day is fully booked. The list has the shape of \<open>conflict_alternatives_shape\<close>,
  but it is made from what \<open>getFreeSlots\<close> returns, whose slots can leave the window and
  cover tasks, for the UTC date of the target date, while the requested interval is placed
  on the local day.
  \<^item> In UTC, with a task from 08:00 to 22:00 and a task from 23:00 to 23:30, the window from
    08:00 to 22:00 is fully booked; for "Sync at 2pm for 30 minutes" the answer offers 22:00
    to 22:30, outside the window, made from the slot from 1320 to 1380.
  \<^item> Five hours behind UTC, at 20:00 local time, the UTC date is the next day's; for "Sync
    at 8am" with a task from 08:00 to 09:00 on the local day, the answer offers 08:00 to
    09:00, the time that is taken.
\<close>

theorem parseTaskFromNL_conflict_offers_taken_time:
  "parseTaskFromNL 0 ''x1'' ''Sync at 2pm for 30 minutes''
       [plain_task ''a'' 28800000 79200000, plain_task ''b'' 82800000 84600000] 0 =
     \<lparr>success = False, conflict = Some True, newTask = None,
      message = ConflictMessage [(''22:00'', ''22:30'')]\<rparr>
   \<and> getFreeSlots 0 [plain_task ''a'' 28800000 79200000, plain_task ''b'' 82800000 84600000] 0 8 22
       = [\<lparr>slot_start = 1320, slot_end = 1380\<rparr>]
   \<and> minutesSinceMidnight 0 28800000 = 480
   \<and> minutesSinceMidnight 0 79200000 = 1320
   \<and> parseTaskFromNL (- 300) ''x1'' ''Sync at 8am'' [plain_task ''a'' 46800000 50400000] 90000000 =
     \<lparr>success = False, conflict = Some True, newTask = None,
      message = ConflictMessage [(''08:00'', ''09:00'')]\<rparr>
   \<and> minutesSinceMidnight (- 300) 46800000 = 480
   \<and> minutesSinceMidnight (- 300) 50400000 = 540
   \<and> localTime (- 300) 46800000 div 86400000 = localTime (- 300) 90000000 div 86400000"
  by code_simp

section \<open>The free-slot calculator\<close>

text \<open>
  What the sweep achieves when the tasks of the day are well placed: they come in the order
  of their start minutes, none ends at an earlier minute than it starts, and none starts
  after the end of the window. Then the slots lie in the window, are non-empty, follow one
  another without overlap, avoid every task, and together with the tasks fill the window.
\<close>

lemma sweep_Cons:
  "sweep tz (t # ts) cursor free =
     sweep tz ts (max cursor (end_minute tz t))
       (if start_minute tz t > cursor
        then free @ [\<lparr>slot_start = cursor, slot_end = start_minute tz t\<rparr>] else free)"
  by (simp add: Let_def start_minute_def end_minute_def)

lemma sweep_inv_step:
  assumes inv: "sweep_inv tz ws we B (t # ts) cursor free"
    and le: "start_minute tz t \<le> end_minute tz t"
    and inside: "start_minute tz t \<le> we"
    and later: "\<forall>u \<in> set ts. start_minute tz t \<le> start_minute tz u"
  shows "sweep_inv tz ws we (B \<union> {start_minute tz t ..< end_minute tz t}) ts
           (max cursor (end_minute tz t))
           (if start_minute tz t > cursor
            then free @ [\<lparr>slot_start = cursor, slot_end = start_minute tz t\<rparr>] else free)"
proof -
  let ?S = "start_minute tz t" and ?E = "end_minute tz t"
  from inv have I1: "ws \<le> cursor"
    and I2: "\<And>s. s \<in> set free \<Longrightarrow>
              ws \<le> slot_start s \<and> slot_start s < slot_end s \<and> slot_end s \<le> cursor \<and> slot_end s \<le> we"
    and I3: "sorted_wrt (\<lambda>a b. slot_end a \<le> slot_start b) free"
    and I4: "\<And>x. ws \<le> x \<Longrightarrow> x < cursor \<Longrightarrow>
              x \<in> B \<or> (\<exists>s \<in> set free. slot_start s \<le> x \<and> x < slot_end s)"
    and I5: "\<And>x. x \<in> B \<Longrightarrow> x < cursor"
    and I6: "\<And>s x. s \<in> set free \<Longrightarrow> x \<in> B \<Longrightarrow> x < slot_start s \<or> slot_end s \<le> x"
    and I7: "\<And>s. s \<in> set free \<Longrightarrow> slot_end s \<le> ?S"
    and I8: "\<And>s u. s \<in> set free \<Longrightarrow> u \<in> set ts \<Longrightarrow> slot_end s \<le> start_minute tz u"
    unfolding sweep_inv_def by simp_all
  show ?thesis
  proof (cases "?S > cursor")
    case True
    let ?new = "\<lparr>slot_start = cursor, slot_end = ?S\<rparr>"
    have mx: "max cursor ?E = ?E" using True le by simp
    have "ws \<le> ?E" using I1 True le by simp
    moreover have "\<forall>s \<in> set (free @ [?new]). ws \<le> slot_start s \<and> slot_start s < slot_end s
            \<and> slot_end s \<le> ?E \<and> slot_end s \<le> we"
      using I1 I2 True le inside by fastforce
    moreover have "sorted_wrt (\<lambda>a b. slot_end a \<le> slot_start b) (free @ [?new])"
      using I2 I3 by (simp add: sorted_wrt_append)
    moreover have "\<forall>x. ws \<le> x \<longrightarrow> x < ?E \<longrightarrow>
            x \<in> B \<union> {?S ..< ?E} \<or> (\<exists>s \<in> set (free @ [?new]). slot_start s \<le> x \<and> x < slot_end s)"
    proof (intro allI impI)
      fix x assume x: "ws \<le> x" "x < ?E"
      consider "x < cursor" | "cursor \<le> x" "x < ?S" | "?S \<le> x" by linarith
      then show "x \<in> B \<union> {?S ..< ?E} \<or> (\<exists>s \<in> set (free @ [?new]). slot_start s \<le> x \<and> x < slot_end s)"
      proof cases
        case 1
        with I4 [OF x(1)] show ?thesis by auto
      next
        case 2
        then show ?thesis by simp
      next
        case 3
        with x show ?thesis by simp
      qed
    qed
    moreover have "\<forall>x \<in> B \<union> {?S ..< ?E}. x < ?E"
      using I5 True le by fastforce
    moreover have "\<forall>s \<in> set (free @ [?new]). \<forall>x \<in> B \<union> {?S ..< ?E}. x < slot_start s \<or> slot_end s \<le> x"
    proof (intro ballI)
      fix s x assume s: "s \<in> set (free @ [?new])" and x: "x \<in> B \<union> {?S ..< ?E}"
      show "x < slot_start s \<or> slot_end s \<le> x"
      proof (cases "s = ?new")
        case True
        then show ?thesis using x I5 [of x] \<open>cursor < ?S\<close> by auto
      next
        case False
        with s have sf: "s \<in> set free" by simp
        show ?thesis using x I6 [OF sf, of x] I7 [OF sf] by auto
      qed
    qed
    moreover have "\<forall>s \<in> set (free @ [?new]). \<forall>u \<in> set ts. slot_end s \<le> start_minute tz u"
      using I8 later by auto
    ultimately show ?thesis
      unfolding sweep_inv_def mx using True by simp
  next
    case False
    have "ws \<le> max cursor ?E" using I1 by simp
    moreover have "\<forall>s \<in> set free. ws \<le> slot_start s \<and> slot_start s < slot_end s
            \<and> slot_end s \<le> max cursor ?E \<and> slot_end s \<le> we"
      using I2 by fastforce
    moreover have "\<forall>x. ws \<le> x \<longrightarrow> x < max cursor ?E \<longrightarrow>
            x \<in> B \<union> {?S ..< ?E} \<or> (\<exists>s \<in> set free. slot_start s \<le> x \<and> x < slot_end s)"
    proof (intro allI impI)
      fix x assume x: "ws \<le> x" "x < max cursor ?E"
      show "x \<in> B \<union> {?S ..< ?E} \<or> (\<exists>s \<in> set free. slot_start s \<le> x \<and> x < slot_end s)"
      proof (cases "x < cursor")
        case True
        with I4 [OF x(1)] show ?thesis by auto
      next
        case False
        with x \<open>\<not> cursor < ?S\<close> show ?thesis by auto
      qed
    qed
    moreover have "\<forall>x \<in> B \<union> {?S ..< ?E}. x < max cursor ?E"
      using I5 by fastforce
    moreover have "\<forall>s \<in> set free. \<forall>x \<in> B \<union> {?S ..< ?E}. x < slot_start s \<or> slot_end s \<le> x"
    proof (intro ballI)
      fix s x assume sf: "s \<in> set free" and x: "x \<in> B \<union> {?S ..< ?E}"
      show "x < slot_start s \<or> slot_end s \<le> x"
        using x I6 [OF sf, of x] I7 [OF sf] by auto
    qed
    moreover have "\<forall>s \<in> set free. \<forall>u \<in> set ts. slot_end s \<le> start_minute tz u"
      using I8 by auto
    ultimately show ?thesis
      unfolding sweep_inv_def using False I3 by simp
  qed
qed

lemma sweep_inv_run:
  assumes "sweep_inv tz ws we B ts cursor free"
    and "sorted (map (start_minute tz) ts)"
    and "\<forall>t \<in> set ts. start_minute tz t \<le> end_minute tz t \<and> start_minute tz t \<le> we"
    and "sweep tz ts cursor free = (cursor', free')"
  shows "sweep_inv tz ws we (B \<union> busy tz ts) [] cursor' free'"
  using assms
proof (induction ts arbitrary: B cursor free)
  case Nil
  then show ?case by (simp add: busy_def)
next
  case (Cons t ts)
  let ?B = "B \<union> {start_minute tz t ..< end_minute tz t}"
  let ?c = "max cursor (end_minute tz t)"
  let ?f = "if start_minute tz t > cursor
            then free @ [\<lparr>slot_start = cursor, slot_end = start_minute tz t\<rparr>] else free"
  have step: "sweep_inv tz ws we ?B ts ?c ?f"
    using Cons.prems(1-3) by (intro sweep_inv_step) auto
  have run: "sweep tz ts ?c ?f = (cursor', free')"
    using Cons.prems(4) by (simp only: sweep_Cons)
  have "sweep_inv tz ws we (?B \<union> busy tz ts) [] cursor' free'"
    using step Cons.prems(2,3) run by (intro Cons.IH) auto
  moreover have "?B \<union> busy tz ts = B \<union> busy tz (t # ts)"
    by (auto simp: busy_def)
  ultimately show ?case by simp
qed


lemma sweep_inv_init: "sweep_inv tz ws we {} ts ws []"
  by (simp add: sweep_inv_def)

lemma getFreeSlots_window_partition:
  assumes day: "dayTasks = sort_key startTime (filter (\<lambda>t. isoDate (startTime t) = dateStr) tasks)"
    and order: "sorted (map (start_minute tz) dayTasks)"
    and shape: "\<forall>t \<in> set dayTasks.
                  start_minute tz t \<le> end_minute tz t \<and> start_minute tz t \<le> dayEnd * 60"
    and free: "free = getFreeSlots tz tasks dateStr dayStart dayEnd"
  shows "(\<Union>s \<in> set free. slot_set s) \<union> (busy tz dayTasks \<inter> {dayStart * 60 ..< dayEnd * 60})
           = {dayStart * 60 ..< dayEnd * 60}"
    and "\<forall>s \<in> set free. dayStart * 60 \<le> slot_start s \<and> slot_start s < slot_end s
           \<and> slot_end s \<le> dayEnd * 60"
    and "sorted_wrt (\<lambda>a b. slot_end a \<le> slot_start b) free"
    and "\<forall>s \<in> set free. slot_set s \<inter> busy tz dayTasks = {}"
proof -
  let ?ws = "dayStart * 60" and ?we = "dayEnd * 60"
  obtain cursor f where sw: "sweep tz dayTasks ?ws [] = (cursor, f)"
    by (cases "sweep tz dayTasks ?ws []")
  have "sweep_inv tz ?ws ?we ({} \<union> busy tz dayTasks) [] cursor f"
    using sweep_inv_init order shape sw by (rule sweep_inv_run)
  then have I1: "?ws \<le> cursor"
    and I2: "\<And>s. s \<in> set f \<Longrightarrow>
              ?ws \<le> slot_start s \<and> slot_start s < slot_end s \<and> slot_end s \<le> cursor \<and> slot_end s \<le> ?we"
    and I3: "sorted_wrt (\<lambda>a b. slot_end a \<le> slot_start b) f"
    and I4: "\<And>x. ?ws \<le> x \<Longrightarrow> x < cursor \<Longrightarrow>
              x \<in> busy tz dayTasks \<or> (\<exists>s \<in> set f. slot_start s \<le> x \<and> x < slot_end s)"
    and I5: "\<And>x. x \<in> busy tz dayTasks \<Longrightarrow> x < cursor"
    and I6: "\<And>s x. s \<in> set f \<Longrightarrow> x \<in> busy tz dayTasks \<Longrightarrow> x < slot_start s \<or> slot_end s \<le> x"
    unfolding sweep_inv_def by simp_all
  let ?last = "\<lparr>slot_start = cursor, slot_end = ?we\<rparr>"
  have fr: "free = (if cursor < ?we then f @ [?last] else f)"
    using sw by (simp add: free getFreeSlots_def day [symmetric])
  show bounds: "\<forall>s \<in> set free. ?ws \<le> slot_start s \<and> slot_start s < slot_end s \<and> slot_end s \<le> ?we"
    using I1 I2 by (auto simp: fr)
  show "sorted_wrt (\<lambda>a b. slot_end a \<le> slot_start b) free"
    using I2 I3 by (simp add: fr sorted_wrt_append)
  show apart: "\<forall>s \<in> set free. slot_set s \<inter> busy tz dayTasks = {}"
  proof
    fix s assume s: "s \<in> set free"
    have "x < slot_start s \<or> slot_end s \<le> x" if x: "x \<in> busy tz dayTasks" for x
    proof (cases "s \<in> set f")
      case True
      then show ?thesis using I6 x by blast
    next
      case False
      with s have "s = ?last" by (auto simp: fr split: if_splits)
      then show ?thesis using I5 [OF x] by simp
    qed
    then show "slot_set s \<inter> busy tz dayTasks = {}"
      by (fastforce simp: slot_set_def)
  qed
  show "(\<Union>s \<in> set free. slot_set s) \<union> (busy tz dayTasks \<inter> {?ws ..< ?we}) = {?ws ..< ?we}"
  proof (intro equalityI subsetI)
    fix x assume "x \<in> (\<Union>s \<in> set free. slot_set s) \<union> (busy tz dayTasks \<inter> {?ws ..< ?we})"
    then show "x \<in> {?ws ..< ?we}"
      using bounds by (fastforce simp: slot_set_def)
  next
    fix x assume x: "x \<in> {?ws ..< ?we}"
    show "x \<in> (\<Union>s \<in> set free. slot_set s) \<union> (busy tz dayTasks \<inter> {?ws ..< ?we})"
    proof (cases "x < cursor")
      case True
      with I4 [of x] x
      have "x \<in> busy tz dayTasks \<or> (\<exists>s \<in> set f. slot_start s \<le> x \<and> x < slot_end s)" by simp
      then show ?thesis
      proof
        assume "x \<in> busy tz dayTasks"
        with x show ?thesis by simp
      next
        assume "\<exists>s \<in> set f. slot_start s \<le> x \<and> x < slot_end s"
        then obtain s where "s \<in> set f" "slot_start s \<le> x" "x < slot_end s" by blast
        then have "s \<in> set free" "x \<in> slot_set s" by (auto simp: fr slot_set_def)
        then show ?thesis by blast
      qed
    next
      case False
      with x have "cursor < ?we" "?last \<in> set free" "x \<in> slot_set ?last"
        by (auto simp: fr slot_set_def)
      then show ?thesis by blast
    qed
  qed
qed

lemma minutesSinceMidnight_mod:
  "minutesSinceMidnight tz d = (localTime tz d div 60000) mod 1440"
proof -
  let ?L = "localTime tz d"
  have "?L div 3600000 = (?L div 60000) div 60"
    by (simp add: zdiv_zmult2_eq [symmetric])
  moreover have "(?L div 60000) mod 1440 = 60 * ((?L div 60000) div 60 mod 24) + (?L div 60000) mod 60"
    using zmod_zmult2_eq [of 24 "?L div 60000" 60] by simp
  ultimately show ?thesis
    by (simp add: minutesSinceMidnight_def getHours_def getMinutes_def)
qed

lemma start_minute_mono_same_day:
  assumes "localTime tz (startTime a) div 86400000 = localTime tz (startTime b) div 86400000"
    and "startTime a \<le> startTime b"
  shows "start_minute tz a \<le> start_minute tz b"
proof -
  let ?ma = "localTime tz (startTime a) div 60000" and ?mb = "localTime tz (startTime b) div 60000"
  have day: "?ma div 1440 = ?mb div 1440"
    using assms(1) by (simp add: zdiv_zmult2_eq [symmetric])
  have "?ma \<le> ?mb"
    using assms(2) by (simp add: localTime_def zdiv_mono1)
  moreover have "?ma = 1440 * (?ma div 1440) + ?ma mod 1440" "?mb = 1440 * (?mb div 1440) + ?mb mod 1440"
    by simp_all
  ultimately have "?ma mod 1440 \<le> ?mb mod 1440" using day by linarith
  then show ?thesis by (simp add: start_minute_def minutesSinceMidnight_mod)
qed

lemma day_tasks_sorted_same_day:
  assumes "\<forall>t \<in> set ts. localTime tz (startTime t) div 86400000 = d"
    and "sorted (map startTime ts)"
  shows "sorted (map (start_minute tz) ts)"
  using assms
proof (induction ts)
  case Nil
  then show ?case by simp
next
  case (Cons t ts)
  then show ?case by (auto intro!: start_minute_mono_same_day)
qed

lemma spec_example_slots:
  "getFreeSlots 0 [plain_task ''a'' 32400000 36000000, plain_task ''b'' 39600000 43200000] 0 8 22
     = [\<lparr>slot_start = 480, slot_end = 540\<rparr>, \<lparr>slot_start = 600, slot_end = 660\<rparr>,
        \<lparr>slot_start = 720, slot_end = 1320\<rparr>]"
  by code_simp

text \<open>
  C1. The claim is that, for every task collection, the slots lie within the window, are
  pairwise disjoint, overlap no task of the day and, with the tasks, make up the window.
  Outside the conditions of \<open>getFreeSlots_window_partition\<close> the code does not achieve it:
  it does not bound a slot pushed inside the loop by \<open>dayEnd\<close>, it reads the end of a task as
  a time of day only, and it picks the tasks by their UTC date while it measures them in
  local minutes. With the window from 8 to 22 (480 to 1320 minutes), in UTC:
  \<^item> one task from 23:00 to 23:30 on the day gives the single slot from 480 to 1380, which
    runs past the end of the window;
  \<^item> one task from 21:00 to 01:00 of the next day gives the slots from 480 to 1260 and from
    480 to 1320, which overlap each other, the second one covering the task from 1260 on.
  Five hours behind UTC, a task from 20:00 to 21:00 local time falls on the next UTC date;
  with a task from 09:00 to 10:00 on that date, the slots are 480 to 1200 and 1260 to 1320,
  and the first one covers the task at 09:00.
\<close>

theorem getFreeSlots_task_outside_window:
  "getFreeSlots 0 [plain_task ''a'' 82800000 84600000] 0 8 22
     = [\<lparr>slot_start = 480, slot_end = 1380\<rparr>]
   \<and> getFreeSlots 0 [plain_task ''a'' 75600000 90000000] 0 8 22
     = [\<lparr>slot_start = 480, slot_end = 1260\<rparr>, \<lparr>slot_start = 480, slot_end = 1320\<rparr>]
   \<and> getFreeSlots (- 300)
        [plain_task ''b'' 136800000 140400000, plain_task ''a'' 90000000 93600000] 1 8 22
     = [\<lparr>slot_start = 480, slot_end = 1200\<rparr>, \<lparr>slot_start = 1260, slot_end = 1320\<rparr>]
   \<and> minutesSinceMidnight (- 300) 136800000 = 540
   \<and> minutesSinceMidnight (- 300) 140400000 = 600"
  by code_simp

end
